theory Spec2Isabelle
  imports Complex_Main "HOL-Library.Char_ord" "HOL-Library.List_Lexorder"
begin

section \<open>Conventions of the embedding\<close>

text \<open>
  The three Python sources are embedded function by function. Floating-point
  numbers are read as exact reals; an exception raised by the Python code is a
  value of \<open>error\<close>; an instance attribute that may not exist yet is an
  \<open>option\<close> field of the record of the instance. Library functions that live
  outside the repository (pyoorb, numpy, the photometry and camera utilities)
  are parameters of the functions that call them, collected in records.
  Python names that start with an underscore lose it, since an Isabelle
  name must start with a letter.
\<close>

datatype error =
    ValueError string
  | RuntimeError string
  | AttributeError string
  | KeyError string
  | IndexError
  | NameError string
  | IOError string
  | UserWarning string

subsection \<open>Rendering an integer with \<open>%s\<close>\<close>

definition digit :: "nat \<Rightarrow> char" where
  "digit d = ''0123456789'' ! d"

fun str_nat :: "nat \<Rightarrow> string" where
  "str_nat n =
     (if n < 10 then [digit n]
      else str_nat (n div 10) @ [digit (n mod 10)])"

declare str_nat.simps [simp del]

definition str_int :: "int \<Rightarrow> string" where
  "str_int i = (if i < 0 then CHR ''-'' # str_nat (nat (- i)) else str_nat (nat i))"

section \<open>generateCoefficients.py: the time window of the driver\<close>

text \<open>
  The parsed command line, with \<open>None\<close> for an argument that was not given
  (every argument of the window has \<open>default=None\<close>).
\<close>

record args =
  tStart :: "real option"
  tEnd :: "real option"
  tSpan :: "real option"

text \<open>The three branches of the \<open>if/elif/elif\<close> chain at lines 86 to 94.\<close>

datatype branch = SpanAndEnd | SpanOnly | EndOnly

text \<open>The condition of the third branch, as the source writes it.\<close>

definition endOnlyCond :: "args \<Rightarrow> bool" where
  "endOnlyCond a = (tEnd a = None \<and> tEnd a \<noteq> None)"

text \<open>
  The chain binds the local variables \<open>tSpan\<close> and \<open>tEnd\<close>; the result gives the
  branch that ran, if any, and the two variables (\<open>None\<close>: still unbound).
\<close>

definition timeWindow :: "args \<Rightarrow> real \<Rightarrow> branch option \<times> real option \<times> real option" where
  "timeWindow a tStart0 =
     (if tSpan a \<noteq> None \<and> tEnd a \<noteq> None then
        (Some SpanAndEnd, tSpan a, tEnd a)
      else if tSpan a \<noteq> None \<and> tEnd a = None then
        (Some SpanOnly, tSpan a, Some (tStart0 + the (tSpan a)))
      else if endOnlyCond a then
        (Some EndOnly, Some (the (tEnd a) - tStart0), tEnd a)
      else (None, None, None))"

text \<open>
  Lines 55 to 96 for the window: the early exit when neither \<open>tSpan\<close> nor
  \<open>tEnd\<close> is given, the start of the window (the first epoch of the orbit
  file when \<open>tStart\<close> is missing), the chain, and the read of the two local
  variables in \<open>np.arange(tStart, tEnd, tSpan)\<close>, a NameError when the chain
  bound nothing.
\<close>

datatype window = Exited | Raised error | Window real real real

definition driverWindow :: "args \<Rightarrow> real \<Rightarrow> window" where
  "driverWindow a epoch0 =
     (if tEnd a = None \<and> tSpan a = None then Exited
      else
        let tStart0 = (case tStart a of None \<Rightarrow> epoch0 | Some t \<Rightarrow> t) in
        (case timeWindow a tStart0 of
           (_, Some sp, Some e) \<Rightarrow> Window tStart0 e sp
         | (_, _, None) \<Rightarrow> Raised (NameError ''tEnd'')
         | (_, None, Some e) \<Rightarrow> Raised (NameError ''tSpan'')))"

section \<open>ephemerides.py: the call of the propagation service\<close>

text \<open>
  \<open>oo.pyoorb.oorb_ephemeris\<close> is the propagation service: from the orbits, the
  observatory code and the tagged times it returns a payload and one integer
  status. The instance holds the orbits in \<open>oorbElem\<close> (\<open>None\<close> until
  \<open>setOrbits\<close> ran; the service is handed whatever is there).
\<close>

type_synonym ephTimes = "(real \<times> real) list"

type_synonym ('o, 'p) oorb_ephemeris = "'o option \<Rightarrow> int \<Rightarrow> ephTimes \<Rightarrow> 'p \<times> int"

record 'o PyOrbEphemerides =
  oorbElem :: "'o option"

text \<open>
  \<open>warnings.warn\<close> under the interpreter's default filter records the message
  and returns; the list of messages issued so far is threaded through.
\<close>

definition generateOorbEphs ::
  "('o, 'p) oorb_ephemeris \<Rightarrow> 'o PyOrbEphemerides \<Rightarrow> ephTimes \<Rightarrow> int \<Rightarrow> string list
     \<Rightarrow> (error + 'p) \<times> string list" where
  "generateOorbEphs oorb self ephTimes obscode warned =
     (let (oorbEphems, err) = oorb (oorbElem self) obscode ephTimes;
          warned' = (if err \<noteq> 0 then warned @ [''Oorb returned error '' @ str_int err]
                     else warned)
      in (Inr oorbEphems, warned'))"

section \<open>linearObs.py\<close>

subsection \<open>numpy helpers\<close>

text \<open>
  \<open>np.arange(start, stop, step)\<close> on floats: \<open>ceil((stop - start)/step)\<close> samples
  \<open>start + i*step\<close>, none when that count is not positive. For a zero step the quotient is not
  a number and numpy raises instead of returning an array.
\<close>

definition arange :: "real \<Rightarrow> real \<Rightarrow> real \<Rightarrow> error + real list" where
  "arange start stop step =
     (if step = 0 then Inl (ValueError ''Maximum allowed size exceeded'')
      else Inr (map (\<lambda>i. start + real i * step) [0..<nat \<lceil>(stop - start) / step\<rceil>]))"

definition degrees :: "real \<Rightarrow> real" where
  "degrees x = x * 180 / pi"

subsection \<open>The output file\<close>

text \<open>
  A value written with \<open>%s\<close>: a string, a finite float, or a float that is
  \<open>inf\<close> or \<open>nan\<close>. A line of the file is the header, kept as the text
  written, or the row of one matched visit, kept as the values in the order
  written (how \<open>%s\<close> prints a float is not modelled).
\<close>

datatype cell = Str string | Num real | NotFinite

datatype outline = Header string | Row "cell list"

text \<open>Whether a line of the file is a header line.\<close>

fun isHeader :: "outline \<Rightarrow> bool" where
  "isHeader (Header h) = True"
| "isHeader (Row cells) = False"

subsection \<open>The instance\<close>

text \<open>
  The attributes of a \<open>LinearObs\<close> that the methods below read or write.
  \<open>__init__\<close> sets the first five; the others appear on first use, so they
  are \<open>None\<close> until then. \<open>'b\<close> is the type of a loaded bandpass. The last two
  fields are instrumentation, not attributes: the paths handed to
  \<open>readSED_flambda\<close> so far, and the number of \<open>calcMag\<close> calls so far.
\<close>

record 'b LinearObs =
  timescale :: string
  timescaleNum :: real
  obscode :: int
  epoch :: real
  cameraFov :: real
  ephTimes :: "ephTimes option"
  filterlist :: "string list option"
  lsst :: "(string \<rightharpoonup> 'b) option"
  seddir :: "string option"
  vband :: "'b option"
  colors :: "(string \<rightharpoonup> (string \<rightharpoonup> real)) option"
  outfile :: "(string \<times> outline list) option"
  wroteHeader :: "bool option"
  sedLoads :: "string list"
  magCalcs :: nat

text \<open>\<open>PyOrbEphemerides.timeScales\<close>, the dictionary read by \<open>__init__\<close>.\<close>

definition timeScales :: "string \<rightharpoonup> real" where
  "timeScales = [''UTC'' \<mapsto> 1, ''UT1'' \<mapsto> 2, ''TT'' \<mapsto> 3, ''TAI'' \<mapsto> 4]"

definition LinearObs_init :: "string \<Rightarrow> int \<Rightarrow> error + 'b LinearObs" where
  "LinearObs_init ts oc =
     (case timeScales ts of
        None \<Rightarrow> Inl (KeyError ts)
      | Some n \<Rightarrow> Inr \<lparr> timescale = ts, timescaleNum = n, obscode = oc, epoch = 2000,
                       cameraFov = 2.1, ephTimes = None, filterlist = None, lsst = None,
                       seddir = None, vband = None, colors = None, outfile = None,
                       wroteHeader = None, sedLoads = [], magCalcs = 0 \<rparr>)"

subsection \<open>setTimesRange\<close>

text \<open>The local variable \<open>times\<close> of \<open>setTimesRange\<close>.\<close>

definition rangeTimes :: "real \<Rightarrow> real \<Rightarrow> real \<Rightarrow> error + real list" where
  "rangeTimes timeStep timeStart timeEnd =
     (let timeStart' = timeStart - timeStep;
          timeEnd' = timeEnd + timeStep
      in arange timeStart' (timeEnd' + timeStep / 2) timeStep)"

definition setTimesRange ::
  "'b LinearObs \<Rightarrow> real \<Rightarrow> real \<Rightarrow> real \<Rightarrow> error option \<times> 'b LinearObs" where
  "setTimesRange self timeStep timeStart timeEnd =
     (case rangeTimes timeStep timeStart timeEnd of
        Inl e \<Rightarrow> (Some e, self)
      | Inr ts \<Rightarrow>
          (None, self\<lparr>ephTimes :=
                   Some (zip ts (replicate (length ts) (timescaleNum self)))\<rparr>))"

subsection \<open>calcMagLosses\<close>

text \<open>
  The losses of one visit. The floats give \<open>inf\<close> or \<open>nan\<close>, never an exception,
  where the real formula has no value (a zero seeing, a zero denominator, a
  logarithm of a non-positive number); that is \<open>None\<close> here.
\<close>

definition log10_opt :: "real \<Rightarrow> real option" where
  "log10_opt y = (if 0 < y then Some (log 10 y) else None)"

definition div_opt :: "real \<Rightarrow> real \<Rightarrow> real option" where
  "div_opt a b = (if b = 0 then None else Some (a / b))"

definition calcMagLosses :: "real \<Rightarrow> real \<Rightarrow> real \<Rightarrow> real option \<times> real option" where
  "calcMagLosses velocity seeing texp =
     (let a_trail = 0.76; b_trail = 1.16; a_det = 0.42; b_det = 0.00 in
      case div_opt (velocity * texp) seeing of
        None \<Rightarrow> (None, None)
      | Some q \<Rightarrow>
          let x = q / 24.0;
              dmagTrail = (case div_opt (a_trail * x ^ 2) (1 + b_trail * x) of
                             None \<Rightarrow> None
                           | Some r \<Rightarrow> map_option (\<lambda>l. 1.25 * l) (log10_opt (1 + r)));
              dmagDetect = (case div_opt (a_det * x ^ 2) (1 + b_det * x) of
                              None \<Rightarrow> None
                            | Some r \<Rightarrow> map_option (\<lambda>l. 1.25 * l) (log10_opt (1 + r)))
          in (dmagTrail, dmagDetect))"

subsection \<open>Visits and interpolants\<close>

text \<open>
  One row of \<open>simdata\<close>, with the columns \<open>runLinearObs\<close> asks the visit log
  for (its \<open>reqcols\<close>, in that order); the column \<open>filter\<close> is \<open>filter_col\<close>
  here. The column-name parameters of the methods are kept at their defaults.
\<close>

record visit =
  expMJD :: real
  night :: real
  fieldRA :: real
  fieldDec :: real
  rotSkyPos :: real
  filter_col :: string
  visitExpTime :: real
  FWHMeff :: real
  FWHMgeom :: real
  fiveSigmaDepth :: real
  solarElong :: real

text \<open>
  An interpolant of \<open>interp1d\<close>: a value inside the sampled range,
  \<open>None\<close> outside, where the call raises ValueError. \<open>interpfuncs\<close> has one
  interpolant for every ephemeris column but \<open>time\<close>, as \<open>interpolateEphs\<close>
  builds it.
\<close>

type_synonym interp = "real \<Rightarrow> real option"

record interpfuncs =
  delta :: interp
  ra :: interp
  dec :: interp
  magV :: interp
  dradt :: interp
  ddecdt :: interp
  phase :: interp
  solarelon :: interp
  velocity :: interp

text \<open>An interpolant called on an array: it raises if any time is out of range.\<close>

fun interp_array :: "interp \<Rightarrow> real list \<Rightarrow> error + real list" where
  "interp_array f [] = Inr []"
| "interp_array f (t # ts) =
     (case f t of
        None \<Rightarrow> Inl (ValueError ''A value in x_new is outside the interpolation range.'')
      | Some y \<Rightarrow> (case interp_array f ts of Inl e \<Rightarrow> Inl e | Inr ys \<Rightarrow> Inr (y # ys)))"

subsection \<open>ssoInFov\<close>

text \<open>
  The two functions of the simulation utilities that \<open>ssoInFov\<close> calls: the
  angular separation of two sky positions, in degrees, and the name of the
  detector a position falls on for a pointing, \<open>None\<close> when it falls on none.
\<close>

record ObservationMetaData =
  pointingRA :: real
  pointingDec :: real
  obs_rotSkyPos :: real
  mjd :: real

record sims_utils =
  angularSeparation :: "real \<Rightarrow> real \<Rightarrow> real \<Rightarrow> real \<Rightarrow> real"
  chipNameFromRaDecLSST :: "real \<Rightarrow> real \<Rightarrow> real \<Rightarrow> ObservationMetaData \<Rightarrow> string option"

text \<open>\<open>np.where(sep < r)[0]\<close>: the indices, ascending, where the test holds.\<close>

definition np_where_lt :: "real list \<Rightarrow> real \<Rightarrow> nat list" where
  "np_where_lt sep r = filter (\<lambda>i. sep ! i < r) [0..<length sep]"

text \<open>The local variable \<open>sep\<close>: one separation for every visit.\<close>

definition separations :: "sims_utils \<Rightarrow> interpfuncs \<Rightarrow> visit list \<Rightarrow> error + real list" where
  "separations sims f simdata =
     (case interp_array (ra f) (map expMJD simdata) of
        Inl e \<Rightarrow> Inl e
      | Inr raSso \<Rightarrow>
          (case interp_array (dec f) (map expMJD simdata) of
             Inl e \<Rightarrow> Inl e
           | Inr decSso \<Rightarrow>
               Inr (map (\<lambda>((r, d), v). angularSeparation sims r d
                                         (degrees (fieldRA v)) (degrees (fieldDec v)))
                        (zip (zip raSso decSso) simdata))))"

text \<open>The loop over \<open>idxObsRough\<close>, which keeps the visits whose detector is not \<open>None\<close>.\<close>

fun footprintLoop ::
  "sims_utils \<Rightarrow> 'b LinearObs \<Rightarrow> interpfuncs \<Rightarrow> visit list \<Rightarrow> nat list \<Rightarrow> error + nat list" where
  "footprintLoop sims self f simdata [] = Inr []"
| "footprintLoop sims self f simdata (idx # rest) =
     (let mjd_date = expMJD (simdata ! idx);
          obs_metadata = \<lparr> pointingRA = degrees (fieldRA (simdata ! idx)),
                           pointingDec = degrees (fieldDec (simdata ! idx)),
                           obs_rotSkyPos = degrees (rotSkyPos (simdata ! idx)),
                           mjd = mjd_date \<rparr>
      in case ra f (expMJD (simdata ! idx)) of
           None \<Rightarrow> Inl (ValueError ''A value in x_new is outside the interpolation range.'')
         | Some raObj \<Rightarrow>
             (case dec f (expMJD (simdata ! idx)) of
                None \<Rightarrow> Inl (ValueError ''A value in x_new is outside the interpolation range.'')
              | Some decObj \<Rightarrow>
                  (case footprintLoop sims self f simdata rest of
                     Inl e \<Rightarrow> Inl e
                   | Inr idxObs \<Rightarrow>
                       Inr (if chipNameFromRaDecLSST sims raObj decObj (epoch self) obs_metadata
                               \<noteq> None
                            then idx # idxObs else idxObs))))"

definition ssoInFov ::
  "sims_utils \<Rightarrow> 'b LinearObs \<Rightarrow> interpfuncs \<Rightarrow> visit list \<Rightarrow> real \<Rightarrow> bool \<Rightarrow> error + nat list" where
  "ssoInFov sims self f simdata rFov useCamera =
     (case separations sims f simdata of
        Inl e \<Rightarrow> Inl e
      | Inr sep \<Rightarrow>
          if \<not> useCamera then Inr (np_where_lt sep rFov)
          else footprintLoop sims self f simdata (np_where_lt sep (cameraFov self)))"

subsection \<open>calcColors\<close>

text \<open>
  What \<open>calcColors\<close> takes from outside the repository: the environment
  variable of the throughput directory, the directory of the package, a fresh
  \<open>Bandpass()\<close>, the two file readers (\<open>None\<close>: the file cannot be read and the
  call raises) and \<open>Sed.calcMag\<close>. \<open>'s\<close> is the type of a loaded spectrum.
\<close>

record ('b, 's) photUtils =
  throughputsDir :: "string option"
  getPackageDir :: string
  Bandpass :: 'b
  readThroughput :: "string \<Rightarrow> 'b option"
  readSED_flambda :: "string \<Rightarrow> 's option"
  calcMag :: "'s \<Rightarrow> 'b \<Rightarrow> real"

text \<open>\<open>os.path.join\<close> of two components.\<close>

definition path_join :: "string \<Rightarrow> string \<Rightarrow> string" where
  "path_join a b =
     (if b \<noteq> [] \<and> hd b = CHR ''/'' then b
      else if a = [] \<or> last a = CHR ''/'' then a @ b
      else a @ ''/'' @ b)"

text \<open>The loop that fills \<open>self.lsst\<close>; it stops at the first file that cannot be read.\<close>

fun readBands ::
  "('b, 's) photUtils \<Rightarrow> string \<Rightarrow> string list \<Rightarrow> (string \<rightharpoonup> 'b)
     \<Rightarrow> error option \<times> (string \<rightharpoonup> 'b)" where
  "readBands env filterdir [] m = (None, m)"
| "readBands env filterdir (f # fs) m =
     (case readThroughput env (path_join filterdir (''total_'' @ f @ ''.dat'')) of
        None \<Rightarrow> (Some (IOError (path_join filterdir (''total_'' @ f @ ''.dat''))),
                 m(f \<mapsto> Bandpass env))
      | Some b \<Rightarrow> readBands env filterdir fs (m(f \<mapsto> b)))"

text \<open>The body of \<open>except AttributeError\<close>, run when \<open>self.lsst\<close> does not exist.\<close>

definition loadBandpasses ::
  "('b, 's) photUtils \<Rightarrow> 'b LinearObs \<Rightarrow> string option \<Rightarrow> error option \<times> 'b LinearObs" where
  "loadBandpasses env self sedDir =
     (case throughputsDir env of
        None \<Rightarrow> (Some (RuntimeError
           ''Cannot find directory for throughput curves. Set env var LSST_THROUGHPUTS_BASELINE''),
           self)
      | Some filterdir \<Rightarrow>
          let fl = [''u'', ''g'', ''r'', ''i'', ''z'', ''y''];
              (err, m) = readBands env filterdir fl Map.empty;
              self1 = self\<lparr>filterlist := Some fl, lsst := Some m\<rparr>
          in case err of
               Some e \<Rightarrow> (Some e, self1)
             | None \<Rightarrow>
                 let sd = (case sedDir of
                             None \<Rightarrow> path_join (getPackageDir env) ''data''
                           | Some d \<Rightarrow> d);
                     self2 = self1\<lparr>seddir := Some sd, vband := Some (Bandpass env)\<rparr>
                 in case readThroughput env (path_join sd ''harris_V.dat'') of
                      None \<Rightarrow> (Some (IOError (path_join sd ''harris_V.dat'')), self2)
                    | Some b \<Rightarrow>
                        (None, self2\<lparr>vband := Some b, colors := Some Map.empty\<rparr>))"

text \<open>
  The loop over \<open>self.filterlist\<close> that fills the table of one spectrum,
  reading \<open>self.lsst[f]\<close> at each turn; the last component counts the
  \<open>calcMag\<close> calls made.
\<close>

fun sedColors ::
  "('b, 's) photUtils \<Rightarrow> 's \<Rightarrow> real \<Rightarrow> (string \<rightharpoonup> 'b) option \<Rightarrow> string list
     \<Rightarrow> (string \<rightharpoonup> real) \<Rightarrow> nat \<Rightarrow> error option \<times> (string \<rightharpoonup> real) \<times> nat" where
  "sedColors env moSed vmag bands [] tab n = (None, tab, n)"
| "sedColors env moSed vmag bands (f # fs) tab n =
     (case bands of
        None \<Rightarrow> (Some (AttributeError ''lsst''), tab, n)
      | Some m \<Rightarrow>
          (case m f of
             None \<Rightarrow> (Some (KeyError f), tab, n)
           | Some b \<Rightarrow>
               sedColors env moSed vmag bands fs (tab(f \<mapsto> calcMag env moSed b - vmag))
                 (Suc n)))"

text \<open>
  Lines 148 to 156: the table of \<open>sedname\<close>, computed and stored if
  \<open>self.colors\<close> does not have it yet.
\<close>

definition sedTable ::
  "('b, 's) photUtils \<Rightarrow> 'b LinearObs \<Rightarrow> string \<Rightarrow> (error + (string \<rightharpoonup> real)) \<times> 'b LinearObs" where
  "sedTable env self sedname =
     (case colors self of
        None \<Rightarrow> (Inl (AttributeError ''colors''), self)
      | Some cs \<Rightarrow>
     (case cs sedname of
        Some tab \<Rightarrow> (Inr tab, self)
      | None \<Rightarrow>
     (case seddir self of
        None \<Rightarrow> (Inl (AttributeError ''seddir''), self)
      | Some sd \<Rightarrow>
     let self2 = self\<lparr>sedLoads := sedLoads self @ [path_join sd sedname]\<rparr> in
     (case readSED_flambda env (path_join sd sedname) of
        None \<Rightarrow> (Inl (IOError (path_join sd sedname)), self2)
      | Some moSed \<Rightarrow>
     (case vband self2 of
        None \<Rightarrow> (Inl (AttributeError ''vband''), self2)
      | Some vb \<Rightarrow>
     let vmag = calcMag env moSed vb;
         self3 = self2\<lparr>magCalcs := Suc (magCalcs self2),
                       colors := Some (cs(sedname \<mapsto> Map.empty))\<rparr>
     in
     (case filterlist self3 of
        None \<Rightarrow> (Inl (AttributeError ''filterlist''), self3)
      | Some fl \<Rightarrow>
     let (err, tab, n) = sedColors env moSed vmag (lsst self3) fl Map.empty 0;
         self4 = self3\<lparr>magCalcs := magCalcs self3 + n,
                       colors := Some (cs(sedname \<mapsto> tab))\<rparr>
     in case err of
          Some e \<Rightarrow> (Inl e, self4)
        | None \<Rightarrow> (Inr tab, self4)))))))"

definition calcColors ::
  "('b, 's) photUtils \<Rightarrow> 'b LinearObs \<Rightarrow> string \<Rightarrow> string option
     \<Rightarrow> (error + (string \<rightharpoonup> real)) \<times> 'b LinearObs" where
  "calcColors env self sedname sedDir =
     (let (err, self1) = (case lsst self of
                            None \<Rightarrow> loadBandpasses env self sedDir
                          | Some _ \<Rightarrow> (None, self))
      in case err of
           Some e \<Rightarrow> (Inl e, self1)
         | None \<Rightarrow> sedTable env self1 sedname)"

subsection \<open>writeObs\<close>

definition openOutput :: "'b LinearObs \<Rightarrow> string \<Rightarrow> 'b LinearObs" where
  "openOutput self outfileName =
     self\<lparr>outfile := Some (outfileName, []), wroteHeader := Some False\<rparr>"

text \<open>\<open>np.unique\<close>: the distinct values, sorted.\<close>

definition np_unique :: "string list \<Rightarrow> string list" where
  "np_unique xs = sort (remdups xs)"

text \<open>
  The loop that fills \<open>dmagColor\<close>: for each filter of the matched visits, an
  error if the table lacks it, else its offset at the visits in that filter.
\<close>

fun colorTerms ::
  "(string \<rightharpoonup> real) \<Rightarrow> string list \<Rightarrow> string list \<Rightarrow> real list \<Rightarrow> error + real list" where
  "colorTerms dmagColorDict [] filters dmagColor = Inr dmagColor"
| "colorTerms dmagColorDict (f # fs) filters dmagColor =
     (case dmagColorDict f of
        None \<Rightarrow> Inl (UserWarning (''Could not find filter '' @ f @ '' in calculated colors!''))
      | Some c \<Rightarrow>
          colorTerms dmagColorDict fs filters
            (map (\<lambda>(g, d). if g = f then c else d) (zip filters dmagColor)))"

text \<open>The interpolants in the order of the columns of \<open>ephs\<close>, without \<open>time\<close>.\<close>

definition interpList :: "interpfuncs \<Rightarrow> interp list" where
  "interpList f = [delta f, ra f, dec f, magV f, dradt f, ddecdt f, phase f, solarelon f,
                   velocity f]"

fun interp_columns :: "interp list \<Rightarrow> real list \<Rightarrow> error + real list list" where
  "interp_columns [] tvis = Inr []"
| "interp_columns (g # gs) tvis =
     (case interp_array g tvis of
        Inl e \<Rightarrow> Inl e
      | Inr col \<Rightarrow> (case interp_columns gs tvis of Inl e \<Rightarrow> Inl e | Inr cols \<Rightarrow> Inr (col # cols)))"

definition ephNames :: "string list" where
  "ephNames = [''delta'', ''ra'', ''dec'', ''magV'', ''time'', ''dradt'', ''ddecdt'', ''phase'',
               ''solarelon'', ''velocity'']"

definition simdataNames :: "string list" where
  "simdataNames = [''expMJD'', ''night'', ''fieldRA'', ''fieldDec'', ''rotSkyPos'', ''filter'',
                   ''visitExpTime'', ''FWHMeff'', ''FWHMgeom'', ''fiveSigmaDepth'',
                   ''solarElong'']"

definition dmagNames :: "string list" where
  "dmagNames = [''magFilter'', ''dmagColor'', ''dmagTrail'', ''dmagDetect'']"

definition headerText :: string where
  "headerText = concat (map (\<lambda>col. col @ '' '') (''objId'' # ephNames @ simdataNames @ dmagNames))"

definition visitCells :: "visit \<Rightarrow> cell list" where
  "visitCells v = [Num (expMJD v), Num (night v), Num (fieldRA v), Num (fieldDec v),
                   Num (rotSkyPos v), Str (filter_col v), Num (visitExpTime v), Num (FWHMeff v),
                   Num (FWHMgeom v), Num (fiveSigmaDepth v), Num (solarElong v)]"

definition lossCell :: "real option \<Rightarrow> cell" where
  "lossCell l = (case l of None \<Rightarrow> NotFinite | Some x \<Rightarrow> Num x)"

text \<open>
  The line of the matched visit number \<open>k\<close>: the object, the ephemeris columns
  with \<open>time\<close> in fifth place, the columns of the visit, and the four magnitude
  terms.
\<close>

definition obsRow ::
  "cell \<Rightarrow> real list list \<Rightarrow> real list \<Rightarrow> visit list \<Rightarrow> real list \<Rightarrow> nat \<Rightarrow> outline" where
  "obsRow objId cols tvis visits dmagColor k =
     (let (dmagTrail, dmagDetect) =
            calcMagLosses (cols ! 8 ! k) (FWHMgeom (visits ! k)) (visitExpTime (visits ! k))
      in Row ([objId]
              @ map (\<lambda>col. Num (col ! k)) (take 4 cols) @ [Num (tvis ! k)]
              @ map (\<lambda>col. Num (col ! k)) (drop 4 cols)
              @ visitCells (visits ! k)
              @ [Num (cols ! 3 ! k + dmagColor ! k), Num (dmagColor ! k),
                 lossCell dmagTrail, lossCell dmagDetect]))"

definition writeObs ::
  "('b, 's) photUtils \<Rightarrow> 'b LinearObs \<Rightarrow> cell \<Rightarrow> interpfuncs \<Rightarrow> visit list \<Rightarrow> nat list
     \<Rightarrow> string \<Rightarrow> string \<Rightarrow> error option \<times> 'b LinearObs" where
  "writeObs env self objId f simdata idxObs outfileName sedname =
     (if length idxObs = 0 then (None, self)
      else
        let self1 = (case outfile self of
                       None \<Rightarrow> openOutput self outfileName
                     | Some _ \<Rightarrow> self)
        in
        if list_ex (\<lambda>idx. length simdata \<le> idx) idxObs then (Some IndexError, self1)
        else
          let visits = map (\<lambda>idx. simdata ! idx) idxObs;
              tvis = map expMJD visits
          in
          (case interp_columns (interpList f) tvis of
             Inl e \<Rightarrow> (Some e, self1)
           | Inr cols \<Rightarrow>
          (case calcColors env self1 sedname None of
             (Inl e, self2) \<Rightarrow> (Some e, self2)
           | (Inr dmagColorDict, self2) \<Rightarrow>
          (case colorTerms dmagColorDict (np_unique (map filter_col visits))
                  (map filter_col visits) (replicate (length idxObs) 0) of
             Inl e \<Rightarrow> (Some e, self2)
           | Inr dmagColor \<Rightarrow>
          (case wroteHeader self2 of
             None \<Rightarrow> (Some (AttributeError ''wroteHeader''), self2)
           | Some wrote \<Rightarrow>
          (case outfile self2 of
             None \<Rightarrow> (Some (AttributeError ''outfile''), self2)
           | Some (name, written) \<Rightarrow>
               (None,
                self2\<lparr>outfile :=
                        Some (name,
                              (if \<not> wrote then written @ [Header headerText] else written)
                              @ map (obsRow objId cols tvis visits dmagColor)
                                    [0..<length idxObs]),
                      wroteHeader := Some True\<rparr>)))))))"

text \<open>
  The calls of \<open>writeObs\<close> that the loop of \<open>runLinearObs\<close> makes, one object
  after the other; nothing catches an exception, so the first one ends the run.
\<close>

record obsCall =
  call_objId :: cell
  call_interpfuncs :: interpfuncs
  call_simdata :: "visit list"
  call_idxObs :: "nat list"
  call_outfileName :: string
  call_sedname :: string

fun writeObsCalls ::
  "('b, 's) photUtils \<Rightarrow> 'b LinearObs \<Rightarrow> obsCall list \<Rightarrow> error option \<times> 'b LinearObs" where
  "writeObsCalls env self [] = (None, self)"
| "writeObsCalls env self (c # cs) =
     (case writeObs env self (call_objId c) (call_interpfuncs c) (call_simdata c)
             (call_idxObs c) (call_outfileName c) (call_sedname c) of
        (Some e, self') \<Rightarrow> (Some e, self')
      | (None, self') \<Rightarrow> writeObsCalls env self' cs)"

section \<open>Example values\<close>

text \<open>A command line that gives only \<open>--tEnd\<close>.\<close>

definition argsEndOnly :: args where
  "argsEndOnly = \<lparr> tStart = Some 100, tEnd = Some 130, tSpan = None \<rparr>"

text \<open>A propagation service that returns the times as payload and status 7.\<close>

definition oorbFailing :: "(unit, ephTimes) oorb_ephemeris" where
  "oorbFailing orbits code tms = (tms, 7)"

text \<open>The instance as \<open>__init__\<close> leaves it, for the timescale TAI and observatory 807.\<close>

definition lobs0 :: "string LinearObs" where
  "lobs0 = \<lparr> timescale = ''TAI'', timescaleNum = 4, obscode = 807, epoch = 2000,
             cameraFov = 2.1, ephTimes = None, filterlist = None, lsst = None,
             seddir = None, vband = None, colors = None, outfile = None,
             wroteHeader = None, sedLoads = [], magCalcs = 0 \<rparr>"

text \<open>
  One visit pointing at right ascension 0 and declination 0, an object that
  stays at that position, and stand-ins for the two utilities: a separation
  that is 0 between equal positions, and a camera that has a detector
  everywhere.
\<close>

definition visit0 :: visit where
  "visit0 = \<lparr> expMJD = 50000, night = 1, fieldRA = 0, fieldDec = 0, rotSkyPos = 0,
               filter_col = ''r'', visitExpTime = 30, FWHMeff = 1, FWHMgeom = 1,
               fiveSigmaDepth = 24, solarElong = 90 \<rparr>"

definition interps0 :: interpfuncs where
  "interps0 = \<lparr> delta = (\<lambda>t. Some 1), ra = (\<lambda>t. Some 0), dec = (\<lambda>t. Some 0),
                 magV = (\<lambda>t. Some 20), dradt = (\<lambda>t. Some 0), ddecdt = (\<lambda>t. Some 0),
                 phase = (\<lambda>t. Some 0), solarelon = (\<lambda>t. Some 90), velocity = (\<lambda>t. Some 0) \<rparr>"

definition sims0 :: sims_utils where
  "sims0 = \<lparr> angularSeparation = (\<lambda>r1 d1 r2 d2. \<bar>r1 - r2\<bar> + \<bar>d1 - d2\<bar>),
              chipNameFromRaDecLSST = (\<lambda>r d e m. Some ''R:2,2 S:1,1'') \<rparr>"

text \<open>
  Stand-ins for the photometry utilities: every file can be read, a loaded
  bandpass or spectrum is the path it was read from, and the magnitude is the
  length of the bandpass path.
\<close>

definition env0 :: "(string, string) photUtils" where
  "env0 = \<lparr> throughputsDir = Some ''/thr'', getPackageDir = ''/pkg'', Bandpass = [],
             readThroughput = (\<lambda>p. Some p), readSED_flambda = (\<lambda>p. Some p),
             calcMag = (\<lambda>s b. real (length b)) \<rparr>"

text \<open>The same visit in a filter that the colour tables do not have.\<close>

definition visitX :: visit where
  "visitX = visit0\<lparr>filter_col := ''x''\<rparr>"

text \<open>Two calls of \<open>writeObs\<close>: an object with no match, and one matched by the visit.\<close>

definition call0 :: obsCall where
  "call0 = \<lparr> call_objId = Str ''obj0'', call_interpfuncs = interps0, call_simdata = [visit0],
              call_idxObs = [], call_outfileName = ''out.txt'', call_sedname = ''C.dat'' \<rparr>"

definition call1 :: obsCall where
  "call1 = \<lparr> call_objId = Str ''obj1'', call_interpfuncs = interps0, call_simdata = [visit0],
              call_idxObs = [0], call_outfileName = ''out.txt'', call_sedname = ''C.dat'' \<rparr>"

section \<open>The driver's dead branch\<close>

text \<open>
  C9. The third condition of the chain asks for \<open>tEnd\<close> to be both \<open>None\<close> and
  not \<open>None\<close>: it is false for every command line, the branch that would derive
  the span from \<open>tEnd\<close> and \<open>tStart\<close> is never the one that runs, and only the
  two branches before it (or none) can run.
\<close>

theorem endOnly_branch_unreachable:
  "\<not> endOnlyCond a
   \<and> fst (timeWindow a tStart0) \<noteq> Some EndOnly
   \<and> fst (timeWindow a tStart0) \<in> {Some SpanAndEnd, Some SpanOnly, None}"
  by (auto simp add: endOnlyCond_def timeWindow_def)

theorem endOnly_branch_unreachable_witness:
  "\<not> endOnlyCond argsEndOnly
   \<and> fst (timeWindow argsEndOnly 100) \<noteq> Some EndOnly
   \<and> timeWindow argsEndOnly 100 = (None, None, None)
   \<and> driverWindow argsEndOnly 0 = Raised (NameError ''tEnd'')"
  using endOnly_branch_unreachable [of argsEndOnly 100]
  by (simp add: argsEndOnly_def timeWindow_def driverWindow_def endOnlyCond_def)

section \<open>A failing propagation service\<close>

text \<open>
  C2. When the service returns a status other than 0, \<open>generateOorbEphs\<close> does
  not raise: it returns the payload of the service, whatever it is, and has
  issued exactly one more warning, which names the status.
\<close>

theorem generateOorbEphs_nonzero_status:
  assumes "oorb (oorbElem self) code tms = (payload, err)" and "err \<noteq> 0"
  shows "generateOorbEphs oorb self tms code warned
           = (Inr payload, warned @ [''Oorb returned error '' @ str_int err])"
  using assms by (simp add: generateOorbEphs_def)

theorem generateOorbEphs_nonzero_status_witness:
  "oorbFailing (oorbElem \<lparr>oorbElem = None\<rparr>) 807 [(1, 4)] = ([(1, 4)], 7) \<and> (7::int) \<noteq> 0
   \<and> generateOorbEphs oorbFailing \<lparr>oorbElem = None\<rparr> [(1, 4)] 807 []
        = (Inr [(1, 4)], [''Oorb returned error 7''])"
proof -
  have call: "oorbFailing (oorbElem \<lparr>oorbElem = None\<rparr>) 807 [(1, 4)] = ([(1, 4)], 7)"
    by (simp add: oorbFailing_def)
  have shown: "str_int 7 = ''7''"
    by (simp add: str_int_def str_nat.simps digit_def)
  from generateOorbEphs_nonzero_status
         [where oorb = oorbFailing and self = "\<lparr>oorbElem = None\<rparr>" and warned = "[]", OF call]
       call shown
  show ?thesis by simp
qed

section \<open>Magnitude losses\<close>

subsection \<open>The value of the two losses\<close>

lemma calcMagLosses_value:
  assumes s: "seeing \<noteq> 0" and x: "x = vel * texp / seeing / 24"
  shows "calcMagLosses vel seeing texp
           = ((if 1 + 1.16 * x \<noteq> 0 \<and> 0 < 1 + 0.76 * x\<^sup>2 / (1 + 1.16 * x)
               then Some (1.25 * log 10 (1 + 0.76 * x\<^sup>2 / (1 + 1.16 * x)))
               else None),
              Some (1.25 * log 10 (1 + 0.42 * x\<^sup>2)))"
proof -
  have q: "div_opt (vel * texp) seeing = Some (vel * texp / seeing)"
    using s by (simp add: div_opt_def)
  have xe: "vel * texp / seeing / 24.0 = x" using x by simp
  have pos: "0 < 1 + 0.42 * x\<^sup>2"
    by (rule add_pos_nonneg) simp_all
  have det: "(case div_opt (0.42 * x\<^sup>2) (1 + 0.00 * x) of
                None \<Rightarrow> None
              | Some r \<Rightarrow> map_option (\<lambda>l. 1.25 * l) (log10_opt (1 + r)))
               = Some (1.25 * log 10 (1 + 0.42 * x\<^sup>2))"
    using pos by (simp add: div_opt_def log10_opt_def)
  have tr: "(case div_opt (0.76 * x\<^sup>2) (1 + 1.16 * x) of
                None \<Rightarrow> None
              | Some r \<Rightarrow> map_option (\<lambda>l. 1.25 * l) (log10_opt (1 + r)))
               = (if 1 + 1.16 * x \<noteq> 0 \<and> 0 < 1 + 0.76 * x\<^sup>2 / (1 + 1.16 * x)
               then Some (1.25 * log 10 (1 + 0.76 * x\<^sup>2 / (1 + 1.16 * x)))
               else None)"
    by (simp add: div_opt_def log10_opt_def)
  show ?thesis
    unfolding calcMagLosses_def Let_def q option.case xe det tr ..
qed

lemma trail_defined:
  assumes "0 \<le> (x::real)"
  shows "1 + 1.16 * x \<noteq> 0 \<and> 0 < 1 + 0.76 * x\<^sup>2 / (1 + 1.16 * x)"
proof -
  have d: "0 < 1 + 1.16 * x" using assms by (intro add_pos_nonneg) simp_all
  have n: "0 \<le> 0.76 * x\<^sup>2 / (1 + 1.16 * x)" using d by (intro divide_nonneg_pos) simp_all
  have p: "0 < 1 + 0.76 * x\<^sup>2 / (1 + 1.16 * x)"
    by (rule add_pos_nonneg [OF zero_less_one n])
  have z: "1 + 1.16 * x \<noteq> 0" using d by (rule less_imp_neq [THEN not_sym])
  from z p show ?thesis by (rule conjI)
qed

subsection \<open>The formulas\<close>

text \<open>
  C6. For a positive seeing and a positive exposure time, a velocity of 0 gives
  the two losses 0 and 0. In general, with
  \<open>x = velocity * texp / seeing / 24\<close>, the losses are
  \<open>1.25 log10(1 + 0.76 x\<^sup>2/(1 + 1.16 x))\<close> and \<open>1.25 log10(1 + 0.42 x\<^sup>2)\<close>:
  whenever both are finite they have these values; for a velocity that is
  not negative, a positive seeing and a positive exposure time both are
  finite and have these values; for any seeing other than 0 the detection
  loss has its value, and the trailing loss has its value exactly when the
  denominator \<open>1 + 1.16 x\<close> is not 0 and the argument of the logarithm is
  positive, and is not finite otherwise; for a seeing of 0 neither loss is
  finite.
\<close>

theorem calcMagLosses_formula:
  "(0 < seeing \<and> 0 < texp \<longrightarrow> calcMagLosses 0 seeing texp = (Some 0, Some 0))
   \<and> (calcMagLosses vel seeing texp = (Some trail, Some detect)
        \<and> x = vel * texp / seeing / 24
      \<longrightarrow> trail = 1.25 * log 10 (1 + 0.76 * x\<^sup>2 / (1 + 1.16 * x))
          \<and> detect = 1.25 * log 10 (1 + 0.42 * x\<^sup>2))
   \<and> (0 \<le> vel \<and> 0 < seeing \<and> 0 < texp \<and> x = vel * texp / seeing / 24
      \<longrightarrow> calcMagLosses vel seeing texp
            = (Some (1.25 * log 10 (1 + 0.76 * x\<^sup>2 / (1 + 1.16 * x))),
               Some (1.25 * log 10 (1 + 0.42 * x\<^sup>2))))
   \<and> (seeing \<noteq> 0 \<and> x = vel * texp / seeing / 24
      \<longrightarrow> calcMagLosses vel seeing texp
            = ((if 1 + 1.16 * x \<noteq> 0 \<and> 0 < 1 + 0.76 * x\<^sup>2 / (1 + 1.16 * x)
                then Some (1.25 * log 10 (1 + 0.76 * x\<^sup>2 / (1 + 1.16 * x)))
                else None),
               Some (1.25 * log 10 (1 + 0.42 * x\<^sup>2))))
   \<and> (seeing = 0 \<longrightarrow> calcMagLosses vel seeing texp = (None, None))"
proof (intro conjI impI)
  assume "0 < seeing \<and> 0 < texp"
  then show "calcMagLosses 0 seeing texp = (Some 0, Some 0)"
    by (simp add: calcMagLosses_def div_opt_def log10_opt_def)
next
  assume run: "calcMagLosses vel seeing texp = (Some trail, Some detect)
                 \<and> x = vel * texp / seeing / 24"
  then show "trail = 1.25 * log 10 (1 + 0.76 * x\<^sup>2 / (1 + 1.16 * x))"
    by (auto simp add: calcMagLosses_def div_opt_def log10_opt_def Let_def mult.commute
             split: option.splits if_splits)
  from run show "detect = 1.25 * log 10 (1 + 0.42 * x\<^sup>2)"
    by (auto simp add: calcMagLosses_def div_opt_def log10_opt_def Let_def mult.commute
             split: option.splits if_splits)
next
  assume h: "0 \<le> vel \<and> 0 < seeing \<and> 0 < texp \<and> x = vel * texp / seeing / 24"
  then have s: "seeing \<noteq> 0" and x: "x = vel * texp / seeing / 24" by simp_all
  from h have "0 \<le> x" by simp
  from trail_defined [OF this] calcMagLosses_value [OF s x]
  show "calcMagLosses vel seeing texp
            = (Some (1.25 * log 10 (1 + 0.76 * x\<^sup>2 / (1 + 1.16 * x))),
               Some (1.25 * log 10 (1 + 0.42 * x\<^sup>2)))"
    by (simp only: if_True simp_thms)
next
  assume "seeing \<noteq> 0 \<and> x = vel * texp / seeing / 24"
  then have s: "seeing \<noteq> 0" and x: "x = vel * texp / seeing / 24" by simp_all
  show "calcMagLosses vel seeing texp
            = ((if 1 + 1.16 * x \<noteq> 0 \<and> 0 < 1 + 0.76 * x\<^sup>2 / (1 + 1.16 * x)
                then Some (1.25 * log 10 (1 + 0.76 * x\<^sup>2 / (1 + 1.16 * x)))
                else None),
               Some (1.25 * log 10 (1 + 0.42 * x\<^sup>2)))"
    by (rule calcMagLosses_value [OF s x])
next
  assume "seeing = 0"
  then show "calcMagLosses vel seeing texp = (None, None)"
    by (simp add: calcMagLosses_def div_opt_def)
qed

theorem calcMagLosses_formula_witness:
  "(0::real) < 1 \<and> (0::real) < 30 \<and> (0::real) \<le> 24
   \<and> calcMagLosses 0 1 30 = (Some 0, Some 0)
   \<and> calcMagLosses 24 1 1 = (Some (1.25 * log 10 (1 + 0.76 / 2.16)),
                               Some (1.25 * log 10 1.42))
   \<and> calcMagLosses (- 24) 1.16 1 = (None, Some (1.25 * log 10 (1 + 0.42 / 1.16\<^sup>2)))
   \<and> calcMagLosses 24 0 1 = (None, None)"
proof -
  note inst = calcMagLosses_formula [where trail = "1.25 * log 10 (1 + 0.76 / 2.16)"
                                       and detect = "1.25 * log 10 1.42"]
  have still: "calcMagLosses 0 1 30 = (Some 0, Some 0)"
    using inst [where seeing = 1 and texp = 30, THEN conjunct1] by simp
  have moving: "calcMagLosses 24 1 1 = (Some (1.25 * log 10 (1 + 0.76 / 2.16)),
                                        Some (1.25 * log 10 1.42))"
    using inst [where vel = 24 and seeing = 1 and texp = 1 and x = 1,
                THEN conjunct2, THEN conjunct2, THEN conjunct1] by simp
  have "1.25 * log 10 (1 + 0.76 / 2.16) = 1.25 * log 10 (1 + 0.76 * 1\<^sup>2 / (1 + 1.16 * 1))
        \<and> 1.25 * log 10 1.42 = 1.25 * log 10 (1 + 0.42 * (1::real)\<^sup>2)"
    using moving
          inst [where vel = 24 and seeing = 1 and texp = 1 and x = 1,
                THEN conjunct2, THEN conjunct1] by simp
  have pole: "calcMagLosses (- 24) 1.16 1 = (None, Some (1.25 * log 10 (1 + 0.42 / 1.16\<^sup>2)))"
    using inst [where vel = "- 24" and seeing = "1.16" and texp = 1 and x = "- 1 / 1.16",
                THEN conjunct2, THEN conjunct2, THEN conjunct2, THEN conjunct1]
    by (simp add: power_divide)
  have blind: "calcMagLosses 24 0 1 = (None, None)"
    using inst [where vel = 24 and seeing = 0 and texp = 1,
                THEN conjunct2, THEN conjunct2, THEN conjunct2, THEN conjunct2] by simp
  from still moving pole blind show ?thesis by simp
qed

section \<open>The time grid\<close>

subsection \<open>Evenly spaced samples\<close>

lemma rangeTimes_eq:
  "step \<noteq> 0 \<Longrightarrow> rangeTimes step start end =
     Inr (map (\<lambda>i. (start - step) + real i * step) [0..<nat \<lceil>(end - start) / step + 5 / 2\<rceil>])"
proof -
  assume nz: "step \<noteq> 0"
  have "(end + step + step / 2 - (start - step)) / step = (end - start) / step + 5 / 2"
    using nz by (simp add: field_simps)
  then show ?thesis using nz by (simp add: rangeTimes_def arange_def)
qed

lemma count_bounds:
  assumes "0 < step" "start \<le> end"
  defines "n \<equiv> nat \<lceil>(end - start) / step + 5 / 2\<rceil>"
  shows "3 \<le> n" and "(end - start) / step + 5 / 2 \<le> real n"
    and "real n < (end - start) / step + 7 / 2"
proof -
  let ?q = "(end - start) / step + 5 / 2"
  have q0: "0 \<le> (end - start) / step" using assms by simp
  then have pos: "0 < \<lceil>?q\<rceil>" by (simp add: ceiling_less_iff)
  have rn: "real n = of_int \<lceil>?q\<rceil>" using pos by (simp add: n_def)
  show "?q \<le> real n" unfolding rn by (rule le_of_int_ceiling)
  show "real n < (end - start) / step + 7 / 2" unfolding rn
    using ceiling_correct [of ?q] by linarith
  have "5 / 2 \<le> real n" using \<open>?q \<le> real n\<close> q0 by linarith
  then show "3 \<le> n" by linarith
qed


lemma grid_sorted:
  "0 < h \<Longrightarrow> sorted_wrt (<) (map (\<lambda>i. a + real i * h) [0..<n])"
  by (simp add: sorted_wrt_map sorted_wrt_iff_nth_less)

lemma grid_last:
  "0 < n \<Longrightarrow> last (map (\<lambda>i. a + real i * h) [0..<n]) = a + real (n - 1) * h"
  by (simp add: last_map last_upt)

lemma grid_hd:
  "0 < n \<Longrightarrow> hd (map (\<lambda>i. a + real i * h) [0..<n]) = a"
  by (simp add: hd_map hd_upt)

lemma sorted_Min_Max:
  fixes xs :: "real list"
  assumes "sorted_wrt (<) xs" "xs \<noteq> []"
  shows "Min (set xs) = hd xs \<and> Max (set xs) = last xs"
proof -
  have s: "sorted xs" using assms(1) by (simp add: strict_sorted_iff)
  have "Min (set xs) = hd xs"
    using s assms(2) by (cases xs) (auto intro!: Min_eqI)
  moreover have "Max (set xs) = last xs"
  proof (rule Max_eqI)
    show "finite (set xs)" by simp
    show "last xs \<in> set xs" using assms(2) by simp
    fix y assume "y \<in> set xs"
    then obtain i where i: "i < length xs" "xs ! i = y" by (auto simp: in_set_conv_nth)
    have "xs ! i \<le> xs ! (length xs - 1)"
      using s i(1) by (intro sorted_nth_mono) auto
    then show "y \<le> last xs" using i(2) assms(2) by (simp add: last_conv_nth)
  qed
  ultimately show ?thesis by simp
qed

subsection \<open>A positive step\<close>

text \<open>
  C1, as the code has it. For a positive step and a window with
  \<open>start \<le> end\<close>, \<open>setTimesRange\<close> stores a grid that is not empty, strictly
  ascending, with consecutive samples one step apart; its least sample is
  \<open>start - step\<close>; its greatest sample is the last one, which lies within half
  a step of \<open>end + step\<close> (from \<open>end + step/2\<close> up to, but not including,
  \<open>end + 3 step/2\<close>) and is \<open>end + step\<close> itself when \<open>end - start\<close> is a whole
  number of steps; and every time of the window lies strictly between the
  least and the greatest sample.
\<close>

theorem setTimesRange_grid:
  assumes "0 < step" and "start \<le> end"
  shows "\<exists>ts. setTimesRange self step start end
                = (None, self\<lparr>ephTimes :=
                           Some (zip ts (replicate (length ts) (timescaleNum self)))\<rparr>)
          \<and> ts \<noteq> [] \<and> sorted_wrt (<) ts
          \<and> (\<forall>i. Suc i < length ts \<longrightarrow> ts ! Suc i = ts ! i + step)
          \<and> hd ts = start - step \<and> Min (set ts) = start - step
          \<and> Max (set ts) = last ts
          \<and> end + step / 2 \<le> last ts \<and> last ts < end + 3 * step / 2
          \<and> ((\<exists>k::nat. end - start = real k * step) \<longrightarrow> last ts = end + step)
          \<and> (\<forall>t. start \<le> t \<and> t \<le> end \<longrightarrow> Min (set ts) < t \<and> t < Max (set ts))"
proof -
  define n where "n = nat \<lceil>(end - start) / step + 5 / 2\<rceil>"
  define ts where "ts = map (\<lambda>i. (start - step) + real i * step) [0..<n]"
  have nz: "step \<noteq> 0" using assms(1) by simp
  have rt: "rangeTimes step start end = Inr ts"
    unfolding ts_def n_def by (rule rangeTimes_eq [OF nz])
  have n3: "3 \<le> n" and lo: "(end - start) / step + 5 / 2 \<le> real n"
    and hi: "real n < (end - start) / step + 7 / 2"
    unfolding n_def using count_bounds [OF assms] by auto
  have len: "length ts = n" by (simp add: ts_def)
  have ne: "ts \<noteq> []" using n3 len by auto
  have srt: "sorted_wrt (<) ts" unfolding ts_def by (rule grid_sorted [OF assms(1)])
  have hd: "hd ts = start - step" unfolding ts_def using n3 by (simp add: grid_hd)
  have lst: "last ts = start - step + real (n - 1) * step"
    unfolding ts_def using n3 by (simp add: grid_last)
  have rn: "real (n - 1) = real n - 1" using n3 by (simp add: of_nat_diff)
  have lst': "last ts = start + (real n - 2) * step" unfolding lst rn by (simp add: algebra_simps)
  have es: "(end - start) / step * step = end - start" using nz by simp
  have "((end - start) / step + 1 / 2) * step \<le> (real n - 2) * step"
    using lo assms(1) by (intro mult_right_mono) auto
  then have lower: "end + step / 2 \<le> last ts"
    unfolding lst' using es by (simp add: algebra_simps)
  have "(real n - 2) * step < ((end - start) / step + 3 / 2) * step"
    using hi assms(1) by (intro mult_strict_right_mono) auto
  then have upper: "last ts < end + 3 * step / 2"
    unfolding lst' using es by (simp add: algebra_simps)
  have mm: "Min (set ts) = hd ts \<and> Max (set ts) = last ts"
    by (rule sorted_Min_Max [OF srt ne])
  have spaced: "\<forall>i. Suc i < length ts \<longrightarrow> ts ! Suc i = ts ! i + step"
    by (simp add: ts_def algebra_simps)
  have exact: "(\<exists>k::nat. end - start = real k * step) \<longrightarrow> last ts = end + step"
  proof
    assume "\<exists>k::nat. end - start = real k * step"
    then obtain k :: nat where k: "end - start = real k * step" by blast
    have q: "(end - start) / step = real k" using k nz by simp
    have "\<lceil>real k + 5 / 2\<rceil> = int k + 3"
      by (simp add: ceiling_eq_iff)
    then have "n = k + 3" unfolding n_def q by simp
    then show "last ts = end + step" unfolding lst' using k by (simp add: algebra_simps)
  qed
  have inside: "\<forall>t. start \<le> t \<and> t \<le> end \<longrightarrow> Min (set ts) < t \<and> t < Max (set ts)"
    using mm hd lower assms(1) by auto
  have run: "setTimesRange self step start end
               = (None, self\<lparr>ephTimes :=
                          Some (zip ts (replicate (length ts) (timescaleNum self)))\<rparr>)"
    by (simp add: setTimesRange_def rt)
  from run ne srt spaced hd mm lower upper exact inside show ?thesis
    by (intro exI [of _ ts]) simp
qed

theorem setTimesRange_grid_witness:
  "(0::real) < 1 \<and> (0::real) \<le> 2
   \<and> (\<exists>ts. setTimesRange lobs0 1 0 2
              = (None, lobs0\<lparr>ephTimes := Some (zip ts (replicate (length ts) 4))\<rparr>)
          \<and> Min (set ts) = -1 \<and> Max (set ts) = 3 \<and> Min (set ts) < 1 \<and> 1 < Max (set ts))"
proof -
  have h1: "(0::real) < 1" and h2: "(0::real) \<le> 2" by simp_all
  from setTimesRange_grid [OF h1 h2, of lobs0]
  obtain ts where run: "setTimesRange lobs0 1 0 2
              = (None, lobs0\<lparr>ephTimes := Some (zip ts (replicate (length ts) (timescaleNum lobs0)))\<rparr>)"
    and mn: "Min (set ts) = 0 - 1" and mx: "Max (set ts) = last ts"
    and ex: "(\<exists>k::nat. (2::real) - 0 = real k * 1) \<longrightarrow> last ts = 2 + 1"
    and ins: "\<forall>t. 0 \<le> t \<and> t \<le> 2 \<longrightarrow> Min (set ts) < t \<and> t < Max (set ts)"
    by blast
  have "(2::real) - 0 = real (2::nat) * 1" by simp
  then have "\<exists>k::nat. (2::real) - 0 = real k * 1" by (rule exI)
  with ex have l3: "last ts = 3" by simp
  have tsn: "timescaleNum lobs0 = 4" by (simp add: lobs0_def)
  from ins have "Min (set ts) < 1 \<and> 1 < Max (set ts)" by simp
  with run mn mx l3 tsn show ?thesis by (intro conjI exI [of _ ts]) simp_all
qed

text \<open>
  The greatest sample is not \<open>end + step\<close> in general: for the window from 0 to
  1/2 with step 1 the grid is -1, 0, 1, and its greatest sample is 1, not 3/2.
\<close>

theorem setTimesRange_upper_bound_counterexample:
  "setTimesRange lobs0 1 0 (1 / 2)
     = (None, lobs0\<lparr>ephTimes := Some [(-1, 4), (0, 4), (1, 4)]\<rparr>)
   \<and> Max (fst ` set (the (ephTimes (snd (setTimesRange lobs0 1 0 (1 / 2)))))) = 1
   \<and> Max (fst ` set (the (ephTimes (snd (setTimesRange lobs0 1 0 (1 / 2)))))) \<noteq> 1 / 2 + 1"
  by (simp add: setTimesRange_def rangeTimes_def arange_def upt_conv_Cons lobs0_def)

subsection \<open>A step that is not positive\<close>




section \<open>Visits in the field of view\<close>

subsection \<open>When every interpolant has a value\<close>

lemma interp_array_defined:
  "\<forall>t\<in>set ts. f t \<noteq> None \<Longrightarrow> interp_array f ts = Inr (map (\<lambda>t. the (f t)) ts)"
  by (induction ts) auto

lemma map_zip3:
  "map (\<lambda>((r, d), v). g r d v) (zip (zip (map h1 xs) (map h2 xs)) xs)
     = map (\<lambda>v. g (h1 v) (h2 v) v) xs"
  by (induction xs) auto

lemma separations_defined:
  assumes "\<forall>v\<in>set sd. ra f (expMJD v) \<noteq> None \<and> dec f (expMJD v) \<noteq> None"
  shows "separations sims f sd =
           Inr (map (\<lambda>v. angularSeparation sims (the (ra f (expMJD v))) (the (dec f (expMJD v)))
                            (degrees (fieldRA v)) (degrees (fieldDec v))) sd)"
proof -
  have r: "interp_array (ra f) (map expMJD sd) = Inr (map (\<lambda>t. the (ra f t)) (map expMJD sd))"
    using assms by (intro interp_array_defined) auto
  have d: "interp_array (dec f) (map expMJD sd) = Inr (map (\<lambda>t. the (dec f t)) (map expMJD sd))"
    using assms by (intro interp_array_defined) auto
  show ?thesis
    unfolding separations_def r d
    by (simp add: comp_def
          map_zip3 [where ?h1.0 = "\<lambda>v. the (ra f (expMJD v))"
                      and ?h2.0 = "\<lambda>v. the (dec f (expMJD v))"])
qed

lemma np_where_lt_iff: "i \<in> set (np_where_lt sep r) \<longleftrightarrow> i < length sep \<and> sep ! i < r"
  by (auto simp add: np_where_lt_def)

lemma footprintLoop_defined:
  assumes "\<forall>v\<in>set sd. ra f (expMJD v) \<noteq> None \<and> dec f (expMJD v) \<noteq> None"
    and "\<forall>idx\<in>set idxs. idx < length sd"
  shows "footprintLoop sims self f sd idxs
           = Inr (filter (\<lambda>idx. chipNameFromRaDecLSST sims (the (ra f (expMJD (sd ! idx))))
                     (the (dec f (expMJD (sd ! idx)))) (epoch self)
                     \<lparr> pointingRA = degrees (fieldRA (sd ! idx)),
                       pointingDec = degrees (fieldDec (sd ! idx)),
                       obs_rotSkyPos = degrees (rotSkyPos (sd ! idx)),
                       mjd = expMJD (sd ! idx) \<rparr> \<noteq> None) idxs)"
  using assms(2)
proof (induction idxs)
  case Nil
  show ?case by simp
next
  case (Cons idx rest)
  then have "sd ! idx \<in> set sd" by simp
  with assms(1) obtain r d where rd: "ra f (expMJD (sd ! idx)) = Some r"
      "dec f (expMJD (sd ! idx)) = Some d" by fastforce
  from Cons have "footprintLoop sims self f sd rest
           = Inr (filter (\<lambda>idx. chipNameFromRaDecLSST sims (the (ra f (expMJD (sd ! idx))))
                     (the (dec f (expMJD (sd ! idx)))) (epoch self)
                     \<lparr> pointingRA = degrees (fieldRA (sd ! idx)),
                       pointingDec = degrees (fieldDec (sd ! idx)),
                       obs_rotSkyPos = degrees (rotSkyPos (sd ! idx)),
                       mjd = expMJD (sd ! idx) \<rparr> \<noteq> None) rest)" by simp
  then show ?case using rd by (simp add: Let_def)
qed

subsection \<open>An object at the boresight\<close>

text \<open>
  C7. Take a visit \<open>i\<close> at whose time the interpolated position of the object
  is the pointing of the visit, a separation that is 0 there, interpolants
  that have a value at the time of every visit (so that \<open>ssoInFov\<close> returns),
  and positive radii. Then the separation of visit \<open>i\<close> is 0 and \<open>i\<close> survives
  the rough test, against \<open>rFov\<close> as well as against the radius of the camera;
  without the camera \<open>ssoInFov\<close> returns the survivors of the rough test, so
  \<open>i\<close> is among them; with the camera \<open>ssoInFov\<close> returns \<open>i\<close> exactly when the
  footprint gives a detector for the boresight.
\<close>

theorem ssoInFov_boresight:
  assumes defined: "\<forall>v\<in>set simdata. ra f (expMJD v) \<noteq> None \<and> dec f (expMJD v) \<noteq> None"
    and i: "i < length simdata"
    and atRa: "ra f (expMJD (simdata ! i)) = Some (degrees (fieldRA (simdata ! i)))"
    and atDec: "dec f (expMJD (simdata ! i)) = Some (degrees (fieldDec (simdata ! i)))"
    and zero: "angularSeparation sims
                 (degrees (fieldRA (simdata ! i))) (degrees (fieldDec (simdata ! i)))
                 (degrees (fieldRA (simdata ! i))) (degrees (fieldDec (simdata ! i))) = 0"
    and rpos: "0 < rFov" and cpos: "0 < cameraFov self"
  shows "\<exists>sep. separations sims f simdata = Inr sep \<and> sep ! i = 0
           \<and> i \<in> set (np_where_lt sep rFov) \<and> i \<in> set (np_where_lt sep (cameraFov self))
           \<and> ssoInFov sims self f simdata rFov False = Inr (np_where_lt sep rFov)
           \<and> (\<exists>idxObs. ssoInFov sims self f simdata rFov True = Inr idxObs
                 \<and> (i \<in> set idxObs \<longleftrightarrow>
                      chipNameFromRaDecLSST sims
                        (degrees (fieldRA (simdata ! i))) (degrees (fieldDec (simdata ! i)))
                        (epoch self)
                        \<lparr> pointingRA = degrees (fieldRA (simdata ! i)),
                          pointingDec = degrees (fieldDec (simdata ! i)),
                          obs_rotSkyPos = degrees (rotSkyPos (simdata ! i)),
                          mjd = expMJD (simdata ! i) \<rparr> \<noteq> None))"
proof -
  define sep where "sep = map (\<lambda>v. angularSeparation sims (the (ra f (expMJD v)))
                            (the (dec f (expMJD v))) (degrees (fieldRA v)) (degrees (fieldDec v)))
                          simdata"
  have s: "separations sims f simdata = Inr sep"
    unfolding sep_def by (rule separations_defined [OF defined])
  have len: "length sep = length simdata" by (simp add: sep_def)
  have z: "sep ! i = 0" using i atRa atDec zero by (simp add: sep_def)
  have rough: "i \<in> set (np_where_lt sep rFov)"
    using i len z rpos by (simp add: np_where_lt_iff)
  have roughCam: "i \<in> set (np_where_lt sep (cameraFov self))"
    using i len z cpos by (simp add: np_where_lt_iff)
  have circ: "ssoInFov sims self f simdata rFov False = Inr (np_where_lt sep rFov)"
    by (simp add: ssoInFov_def s)
  have inr: "\<forall>idx\<in>set (np_where_lt sep (cameraFov self)). idx < length simdata"
    using len by (simp add: np_where_lt_iff)
  have cam: "ssoInFov sims self f simdata rFov True
               = footprintLoop sims self f simdata (np_where_lt sep (cameraFov self))"
    by (simp add: ssoInFov_def s)
  note fl = footprintLoop_defined [OF defined inr, of sims self]
  show ?thesis
    apply (intro exI [of _ sep] conjI s z rough roughCam circ)
    apply (rule exI, rule conjI)
     apply (simp only: cam fl)
    using roughCam atRa atDec by simp
qed

theorem ssoInFov_boresight_witness:
  "ssoInFov sims0 lobs0 interps0 [visit0] (1 / 1000) False = Inr [0]
   \<and> ssoInFov sims0 lobs0 interps0 [visit0] (1 / 1000) True = Inr [0]"
proof -
  have defined: "\<forall>v\<in>set [visit0]. ra interps0 (expMJD v) \<noteq> None \<and> dec interps0 (expMJD v) \<noteq> None"
    by (simp add: interps0_def)
  have i: "(0::nat) < length [visit0]" by simp
  have atRa: "ra interps0 (expMJD ([visit0] ! 0)) = Some (degrees (fieldRA ([visit0] ! 0)))"
    by (simp add: interps0_def visit0_def degrees_def)
  have atDec: "dec interps0 (expMJD ([visit0] ! 0)) = Some (degrees (fieldDec ([visit0] ! 0)))"
    by (simp add: interps0_def visit0_def degrees_def)
  have zero: "angularSeparation sims0
                 (degrees (fieldRA ([visit0] ! 0))) (degrees (fieldDec ([visit0] ! 0)))
                 (degrees (fieldRA ([visit0] ! 0))) (degrees (fieldDec ([visit0] ! 0))) = 0"
    by (simp add: sims0_def)
  have rpos: "(0::real) < 1 / 1000" by simp
  have cpos: "0 < cameraFov lobs0" by (simp add: lobs0_def)
  from ssoInFov_boresight [OF defined i atRa atDec zero rpos cpos]
  obtain sep idxObs where sep: "separations sims0 interps0 [visit0] = Inr sep"
    and m: "0 \<in> set (np_where_lt sep (1 / 1000))"
    and circ: "ssoInFov sims0 lobs0 interps0 [visit0] (1 / 1000) False = Inr (np_where_lt sep (1 / 1000))"
    and cam: "ssoInFov sims0 lobs0 interps0 [visit0] (1 / 1000) True = Inr idxObs"
    and iff: "0 \<in> set idxObs \<longleftrightarrow>
                      chipNameFromRaDecLSST sims0
                        (degrees (fieldRA ([visit0] ! 0))) (degrees (fieldDec ([visit0] ! 0)))
                        (epoch lobs0)
                        \<lparr> pointingRA = degrees (fieldRA ([visit0] ! 0)),
                          pointingDec = degrees (fieldDec ([visit0] ! 0)),
                          obs_rotSkyPos = degrees (rotSkyPos ([visit0] ! 0)),
                          mjd = expMJD ([visit0] ! 0) \<rparr> \<noteq> None"
    by blast
  have sepv: "sep = [0]"
    using sep by (simp add: separations_def interps0_def sims0_def visit0_def degrees_def)
  have c1: "ssoInFov sims0 lobs0 interps0 [visit0] (1 / 1000) False = Inr [0]"
    unfolding circ sepv by (simp add: np_where_lt_def)
  have "0 \<in> set idxObs" using iff by (simp add: sims0_def)
  moreover have "ssoInFov sims0 lobs0 interps0 [visit0] (1 / 1000) True = Inr [0]"
    by (simp add: ssoInFov_def separations_def interps0_def sims0_def visit0_def degrees_def
          np_where_lt_def lobs0_def)
  ultimately show ?thesis using c1 by simp
qed

subsection \<open>The radius argument under the camera footprint\<close>

text \<open>
  C10. With \<open>useCamera\<close> true the result of \<open>ssoInFov\<close> is the same for any
  two values of \<open>rFov\<close>; for an instance as \<open>__init__\<close> builds it the rough
  test compares the separations with 2.1 degrees.
\<close>

theorem ssoInFov_camera_ignores_rFov:
  "ssoInFov sims self f simdata rFov True = ssoInFov sims self f simdata rFov' True
   \<and> (LinearObs_init ts oc = Inr self \<longrightarrow>
        ssoInFov sims self f simdata rFov True
          = (case separations sims f simdata of
               Inl e \<Rightarrow> Inl e
             | Inr sep \<Rightarrow> footprintLoop sims self f simdata (np_where_lt sep 2.1)))"
  by (auto simp add: ssoInFov_def LinearObs_init_def split: option.splits sum.splits)

theorem ssoInFov_camera_ignores_rFov_witness:
  "LinearObs_init ''TAI'' 807 = Inr lobs0
   \<and> ssoInFov sims0 lobs0 interps0 [visit0] 1.75 True = Inr [0]
   \<and> ssoInFov sims0 lobs0 interps0 [visit0] 0 True = Inr [0]
   \<and> ssoInFov sims0 lobs0 interps0 [visit0] 0 False = Inr []"
proof -
  have init: "LinearObs_init ''TAI'' 807 = Inr lobs0"
    by (simp add: LinearObs_init_def timeScales_def lobs0_def)
  have run: "ssoInFov sims0 lobs0 interps0 [visit0] 1.75 True = Inr [0]"
    by (simp add: ssoInFov_def separations_def interps0_def sims0_def visit0_def degrees_def
          np_where_lt_def lobs0_def)
  have circ: "ssoInFov sims0 lobs0 interps0 [visit0] 0 False = Inr []"
    by (simp add: ssoInFov_def separations_def interps0_def sims0_def visit0_def degrees_def
          np_where_lt_def lobs0_def)
  from ssoInFov_camera_ignores_rFov [of sims0 lobs0 interps0 "[visit0]" "1.75" 0 "''TAI''" 807]
       init run circ
  show ?thesis by simp
qed

section \<open>The cache of colour tables\<close>

subsection \<open>What a call reads and stores\<close>

lemma sedColors_count:
  "sedColors env moSed vmag bands fl tab n = (None, tab', n') \<Longrightarrow> n' = n + length fl"
proof (induction fl arbitrary: tab n)
  case Nil
  then show ?case by simp
next
  case (Cons f fs)
  then obtain m b where b: "bands = Some m" "m f = Some b" by (auto split: option.splits)
  with Cons.prems have "sedColors env moSed vmag bands fs
          (tab(f \<mapsto> calcMag env moSed b - vmag)) (Suc n) = (None, tab', n')" by simp
  from Cons.IH [OF this] show ?case by simp
qed

lemma loadBandpasses_ok:
  assumes "loadBandpasses env self sedDir = (None, self1)"
  shows "lsst self1 \<noteq> None" and "colors self1 = Some Map.empty"
    and "sedLoads self1 = sedLoads self" and "magCalcs self1 = magCalcs self"
    and "outfile self1 = outfile self" and "wroteHeader self1 = wroteHeader self"
  using assms
  by (auto simp add: loadBandpasses_def Let_def split: option.splits prod.splits)

lemma sedTable_hit:
  "colors self = Some cs \<Longrightarrow> cs sedname = Some tab \<Longrightarrow> sedTable env self sedname = (Inr tab, self)"
  by (simp add: sedTable_def)

lemma sedTable_keeps_lsst:
  "sedTable env self sedname = (r, self') \<Longrightarrow> lsst self' = lsst self"
  by (auto simp add: sedTable_def Let_def split: option.splits prod.splits)

lemma sedTable_keeps_file:
  "sedTable env self sedname = (r, self') \<Longrightarrow>
     outfile self' = outfile self \<and> wroteHeader self' = wroteHeader self"
  by (auto simp add: sedTable_def Let_def split: option.splits prod.splits)

lemma sedTable_stores:
  "sedTable env self sedname = (Inr tab, self') \<Longrightarrow>
     \<exists>cs. colors self' = Some cs \<and> cs sedname = Some tab"
  by (auto simp add: sedTable_def Let_def split: option.splits prod.splits)

lemma sedTable_keeps_others:
  "sedTable env self other = (r, self') \<Longrightarrow> colors self = Some cs \<Longrightarrow> cs sedname = Some tab \<Longrightarrow>
     \<exists>cs'. colors self' = Some cs' \<and> cs' sedname = Some tab"
  by (auto simp add: sedTable_def Let_def split: option.splits prod.splits)

lemma sedTable_miss:
  "sedTable env self sedname = (Inr tab, self') \<Longrightarrow> colors self = Some cs \<Longrightarrow>
   cs sedname = None \<Longrightarrow>
     \<exists>sd fl. seddir self' = Some sd \<and> filterlist self' = Some fl
           \<and> sedLoads self' = sedLoads self @ [path_join sd sedname]
           \<and> magCalcs self' = magCalcs self + 1 + length fl"
  by (auto simp add: sedTable_def Let_def split: option.splits prod.splits dest: sedColors_count)

lemma calcColors_loaded:
  "lsst self = Some bands \<Longrightarrow> calcColors env self sedname sedDir = sedTable env self sedname"
  by (simp add: calcColors_def)

lemma calcColors_fresh:
  assumes "lsst self = None" and "calcColors env self sedname sedDir = (Inr tab, self1)"
  obtains self0 where "loadBandpasses env self sedDir = (None, self0)"
    and "sedTable env self0 sedname = (Inr tab, self1)"
  using assms by (auto simp add: calcColors_def split: prod.splits option.splits)

lemma calcColors_stores:
  assumes "calcColors env self sedname sedDir = (Inr tab, self1)"
  shows "\<exists>bands cs. lsst self1 = Some bands \<and> colors self1 = Some cs \<and> cs sedname = Some tab"
proof (cases "lsst self")
  case None
  from calcColors_fresh [OF None assms] obtain self0
    where l: "loadBandpasses env self sedDir = (None, self0)"
      and t: "sedTable env self0 sedname = (Inr tab, self1)" by blast
  from loadBandpasses_ok(1) [OF l] sedTable_keeps_lsst [OF t] sedTable_stores [OF t]
  show ?thesis by auto
next
  case (Some bands)
  with assms have t: "sedTable env self sedname = (Inr tab, self1)"
    by (simp add: calcColors_loaded)
  from Some sedTable_keeps_lsst [OF t] sedTable_stores [OF t] show ?thesis by auto
qed

lemma calcColors_hit:
  "lsst self = Some bands \<Longrightarrow> colors self = Some cs \<Longrightarrow> cs sedname = Some tab \<Longrightarrow>
     calcColors env self sedname sedDir = (Inr tab, self)"
  by (simp add: calcColors_loaded sedTable_hit)

lemma calcColors_keeps_others:
  assumes "lsst self = Some bands" "colors self = Some cs" "cs sedname = Some tab"
    and "calcColors env self other sedDir = (r, self')"
  shows "\<exists>cs'. lsst self' = Some bands \<and> colors self' = Some cs' \<and> cs' sedname = Some tab"
proof -
  from assms(1,4) have t: "sedTable env self other = (r, self')"
    by (simp add: calcColors_loaded)
  from sedTable_keeps_others [OF t assms(2,3)] sedTable_keeps_lsst [OF t] assms(1)
  show ?thesis by auto
qed

subsection \<open>Two calls for one spectrum\<close>

text \<open>
  C5. If a call of \<open>calcColors\<close> for \<open>sedname\<close> returns a table, a second call
  for \<open>sedname\<close> returns the same table and leaves the instance as it is, so it
  loads no spectrum and computes no magnitude (the two counters are fields of
  the instance); the same holds after a call for any other name in between,
  whether that call returns or raises. The first call itself leaves the
  instance unchanged when the table was already stored, and otherwise loads
  exactly one spectrum, the file of \<open>sedname\<close>, and computes one magnitude for
  the V band and one for each filter of the filter list.
\<close>

theorem calcColors_memoized:
  assumes first: "calcColors env self sedname sedDir = (Inr tab, self1)"
  shows "calcColors env self1 sedname sedDir' = (Inr tab, self1)
     \<and> (\<forall>other sedDir'' r self2.
           calcColors env self1 other sedDir'' = (r, self2)
             \<longrightarrow> calcColors env self2 sedname sedDir' = (Inr tab, self2))
     \<and> ((lsst self \<noteq> None \<and> (\<exists>cs t. colors self = Some cs \<and> cs sedname = Some t))
           \<longrightarrow> self1 = self)
     \<and> (\<not> (lsst self \<noteq> None \<and> (\<exists>cs t. colors self = Some cs \<and> cs sedname = Some t))
           \<longrightarrow> (\<exists>sd fl. seddir self1 = Some sd \<and> filterlist self1 = Some fl
                  \<and> sedLoads self1 = sedLoads self @ [path_join sd sedname]
                  \<and> magCalcs self1 = magCalcs self + 1 + length fl))"
proof (intro conjI allI impI)
  from calcColors_stores [OF first] obtain bands cs
    where st: "lsst self1 = Some bands" "colors self1 = Some cs" "cs sedname = Some tab"
    by blast
  show "calcColors env self1 sedname sedDir' = (Inr tab, self1)"
    by (rule calcColors_hit [OF st])
  show "calcColors env self2 sedname sedDir' = (Inr tab, self2)"
    if "calcColors env self1 other sedDir'' = (r, self2)" for other sedDir'' r self2
  proof -
    from calcColors_keeps_others [OF st that] obtain cs'
      where "lsst self2 = Some bands" "colors self2 = Some cs'" "cs' sedname = Some tab"
      by blast
    then show ?thesis by (rule calcColors_hit)
  qed
next
  assume "lsst self \<noteq> None \<and> (\<exists>cs t. colors self = Some cs \<and> cs sedname = Some t)"
  then obtain bands cs t where "lsst self = Some bands" "colors self = Some cs"
      "cs sedname = Some t" by auto
  from calcColors_hit [OF this, of env sedDir] first show "self1 = self" by simp
next
  assume miss: "\<not> (lsst self \<noteq> None \<and> (\<exists>cs t. colors self = Some cs \<and> cs sedname = Some t))"
  show "\<exists>sd fl. seddir self1 = Some sd \<and> filterlist self1 = Some fl
                  \<and> sedLoads self1 = sedLoads self @ [path_join sd sedname]
                  \<and> magCalcs self1 = magCalcs self + 1 + length fl"
  proof (cases "lsst self")
    case None
    from calcColors_fresh [OF None first] obtain self0
      where l: "loadBandpasses env self sedDir = (None, self0)"
        and t: "sedTable env self0 sedname = (Inr tab, self1)" by blast
    have "Map.empty sedname = (None :: (string \<rightharpoonup> real) option)" by simp
    from sedTable_miss [OF t loadBandpasses_ok(2) [OF l] this]
         loadBandpasses_ok(3,4) [OF l]
    show ?thesis by simp
  next
    case (Some bands)
    with first have t: "sedTable env self sedname = (Inr tab, self1)"
      by (simp add: calcColors_loaded)
    from t obtain cs where cs: "colors self = Some cs"
      by (auto simp add: sedTable_def split: option.splits)
    with miss Some have "cs sedname = None" by (cases "cs sedname") auto
    from sedTable_miss [OF t cs this] show ?thesis .
  qed
qed

theorem calcColors_memoized_witness:
  "\<exists>tab self1 r self2.
        calcColors env0 lobs0 ''C.dat'' None = (Inr tab, self1)
      \<and> calcColors env0 self1 ''C.dat'' None = (Inr tab, self1)
      \<and> calcColors env0 self1 ''S.dat'' None = (r, self2)
      \<and> calcColors env0 self2 ''C.dat'' None = (Inr tab, self2)
      \<and> tab ''r'' = Some (- 6)
      \<and> sedLoads self1 = [''/pkg/data/C.dat''] \<and> magCalcs self1 = 7"
proof -
  have "\<exists>tab self1. calcColors env0 lobs0 ''C.dat'' None = (Inr tab, self1)
          \<and> tab ''r'' = Some (- 6)
          \<and> sedLoads self1 = [''/pkg/data/C.dat''] \<and> magCalcs self1 = 7"
    by (simp add: calcColors_def loadBandpasses_def sedTable_def env0_def lobs0_def
          path_join_def Let_def)
  then obtain tab self1 where first: "calcColors env0 lobs0 ''C.dat'' None = (Inr tab, self1)"
    and rest: "tab ''r'' = Some (- 6)" "sedLoads self1 = [''/pkg/data/C.dat'']"
      "magCalcs self1 = 7" by blast
  obtain r self2 where other: "calcColors env0 self1 ''S.dat'' None = (r, self2)"
    by (cases "calcColors env0 self1 ''S.dat'' None")
  from calcColors_memoized [OF first, of None]
  have again: "calcColors env0 self1 ''C.dat'' None = (Inr tab, self1)"
    and later: "calcColors env0 self2 ''C.dat'' None = (Inr tab, self2)"
    using other by blast+
  from first again other later rest show ?thesis by blast
qed

section \<open>Writing the observations\<close>

subsection \<open>The file across a call\<close>

lemma loadBandpasses_keeps_file:
  "loadBandpasses env self sedDir = (r, self') \<Longrightarrow>
     outfile self' = outfile self \<and> wroteHeader self' = wroteHeader self"
  by (auto simp add: loadBandpasses_def Let_def split: option.splits prod.splits)

lemma calcColors_keeps_file:
  assumes "calcColors env self sedname sedDir = (r, self')"
  shows "outfile self' = outfile self \<and> wroteHeader self' = wroteHeader self"
proof (cases "lsst self")
  case None
  obtain e self0 where l: "loadBandpasses env self sedDir = (e, self0)" by (cases "loadBandpasses env self sedDir")
  show ?thesis
  proof (cases e)
    case e_none: None
    with assms l None have "sedTable env self0 sedname = (r, self')" by (simp add: calcColors_def)
    from sedTable_keeps_file [OF this] loadBandpasses_keeps_file [OF l] show ?thesis by simp
  next
    case (Some err)
    with assms l None have "self' = self0" by (simp add: calcColors_def)
    with loadBandpasses_keeps_file [OF l] show ?thesis by simp
  qed
next
  case (Some bands)
  with assms have "sedTable env self sedname = (r, self')" by (simp add: calcColors_loaded)
  from sedTable_keeps_file [OF this] show ?thesis .
qed

lemma sedTable_file_update:
  "sedTable env (self\<lparr>outfile := out, wroteHeader := w\<rparr>) sedname
     = (case sedTable env self sedname of (r, self') \<Rightarrow> (r, self'\<lparr>outfile := out, wroteHeader := w\<rparr>))"
  by (simp add: sedTable_def Let_def split: option.splits prod.splits)

lemma loadBandpasses_file_update:
  "loadBandpasses env (self\<lparr>outfile := out, wroteHeader := w\<rparr>) sedDir
     = (case loadBandpasses env self sedDir of (r, self') \<Rightarrow> (r, self'\<lparr>outfile := out, wroteHeader := w\<rparr>))"
  by (simp add: loadBandpasses_def Let_def split: option.splits prod.splits)

lemma calcColors_file_update:
  "calcColors env (self\<lparr>outfile := out, wroteHeader := w\<rparr>) sedname sedDir
     = (case calcColors env self sedname sedDir of (r, self') \<Rightarrow> (r, self'\<lparr>outfile := out, wroteHeader := w\<rparr>))"
  by (simp add: calcColors_def sedTable_file_update loadBandpasses_file_update split: option.splits prod.splits)


lemma calcColors_opened:
  "calcColors env (case outfile self of None \<Rightarrow> openOutput self name | Some x \<Rightarrow> self) sedname sedDir
     = (case calcColors env self sedname sedDir of
          (r, self') \<Rightarrow> (r, case outfile self of None \<Rightarrow> openOutput self' name | Some x \<Rightarrow> self'))"
  by (cases "outfile self")
     (simp_all add: openOutput_def calcColors_file_update split: prod.splits)

lemma set_np_unique: "set (np_unique xs) = set xs"
  by (simp add: np_unique_def)

lemma colorTerms_absent:
  "g \<in> set us \<Longrightarrow> dict g = None \<Longrightarrow>
     \<exists>g'\<in>set us. dict g' = None
        \<and> colorTerms dict us fs dm
            = Inl (UserWarning (''Could not find filter '' @ g' @ '' in calculated colors!''))"
proof (induction us arbitrary: dm)
  case Nil
  then show ?case by simp
next
  case (Cons u us)
  show ?case
  proof (cases "dict u")
    case None
    then show ?thesis by auto
  next
    case (Some c)
    with Cons.prems have "g \<in> set us" by auto
    from Cons.IH [OF this Cons.prems(2)] Some show ?thesis by auto
  qed
qed

lemma colorTerms_length:
  "colorTerms dict us fs dm = Inr dm' \<Longrightarrow> length fs = length dm \<Longrightarrow> length dm' = length dm"
  by (induction us arbitrary: dm) (auto split: option.splits)

lemma colorTerms_offsets:
  "colorTerms dict us fs dm = Inr dm' \<Longrightarrow> length fs = length dm \<Longrightarrow> distinct us \<Longrightarrow>
   k < length fs \<Longrightarrow>
     (fs ! k \<in> set us \<longrightarrow> dict (fs ! k) = Some (dm' ! k)) \<and> (fs ! k \<notin> set us \<longrightarrow> dm' ! k = dm ! k)"
proof (induction us arbitrary: dm)
  case Nil
  then show ?case by simp
next
  case (Cons u us)
  from Cons.prems(1) obtain c where c: "dict u = Some c" by (auto split: option.splits)
  let ?dm1 = "map (\<lambda>(g, d). if g = u then c else d) (zip fs dm)"
  from Cons.prems(1) c have run: "colorTerms dict us fs ?dm1 = Inr dm'" by simp
  have len: "length fs = length ?dm1" using Cons.prems(2) by simp
  from Cons.prems(3) have d: "distinct us" and nu: "u \<notin> set us" by auto
  note ih = Cons.IH [OF run len d Cons.prems(4)]
  have at: "?dm1 ! k = (if fs ! k = u then c else dm ! k)"
    using Cons.prems(2,4) by simp
  show ?case
  proof (cases "fs ! k = u")
    case True
    with ih nu at c show ?thesis by auto
  next
    case False
    with ih at show ?thesis by auto
  qed
qed


lemma writeObs_empty: "writeObs env self objId f simdata [] outfileName sedname = (None, self)"
  by (simp add: writeObs_def)

lemma writeObs_raises_file:
  assumes "writeObs env self objId f simdata idxObs outfileName sedname = (Some e, s')"
  shows "outfile s' = (case outfile self of None \<Rightarrow> Some (outfileName, []) | Some x \<Rightarrow> Some x)
       \<and> wroteHeader s' = (case outfile self of None \<Rightarrow> Some False | Some x \<Rightarrow> wroteHeader self)"
proof -
  obtain r s2 where cc: "calcColors env self sedname None = (r, s2)"
    by (cases "calcColors env self sedname None")
  from calcColors_keeps_file [OF cc] assms show ?thesis
    by (auto simp add: writeObs_def calcColors_opened cc openOutput_def Let_def
             split: if_splits sum.splits option.splits prod.splits)
qed

lemma writeObs_returns_file:
  assumes ne: "idxObs \<noteq> []"
    and run: "writeObs env self objId f simdata idxObs outfileName sedname = (None, s')"
  shows "\<exists>cols tab s2 dmagColor.
           (\<forall>idx\<in>set idxObs. idx < length simdata)
         \<and> interp_columns (interpList f) (map expMJD (map (\<lambda>idx. simdata ! idx) idxObs)) = Inr cols
         \<and> calcColors env self sedname None = (Inr tab, s2)
         \<and> colorTerms tab (np_unique (map filter_col (map (\<lambda>idx. simdata ! idx) idxObs)))
               (map filter_col (map (\<lambda>idx. simdata ! idx) idxObs))
               (replicate (length idxObs) 0) = Inr dmagColor
         \<and> wroteHeader s' = Some True
         \<and> outfile s' =
             Some (case outfile self of
                     None \<Rightarrow> (outfileName,
                              Header headerText
                              # map (obsRow objId cols (map expMJD (map (\<lambda>idx. simdata ! idx) idxObs))
                                       (map (\<lambda>idx. simdata ! idx) idxObs) dmagColor)
                                    [0..<length idxObs])
                   | Some (name, written) \<Rightarrow>
                       (name,
                        (if wroteHeader self = Some True then written
                         else written @ [Header headerText])
                        @ map (obsRow objId cols (map expMJD (map (\<lambda>idx. simdata ! idx) idxObs))
                                 (map (\<lambda>idx. simdata ! idx) idxObs) dmagColor)
                              [0..<length idxObs]))"
proof -
  obtain r s2 where cc: "calcColors env self sedname None = (r, s2)"
    by (cases "calcColors env self sedname None")
  from calcColors_keeps_file [OF cc] ne run show ?thesis
    by (auto simp add: writeObs_def calcColors_opened cc openOutput_def Let_def list_ex_iff
             split: if_splits sum.splits option.splits prod.splits)
qed

lemma interp_array_values:
  "interp_array g ts = Inr ys \<Longrightarrow>
     length ys = length ts \<and> (\<forall>k<length ts. g (ts ! k) = Some (ys ! k))"
proof (induction ts arbitrary: ys)
  case Nil
  then show ?case by simp
next
  case (Cons t ts)
  from Cons.prems obtain y ys' where y: "g t = Some y" and r: "interp_array g ts = Inr ys'"
    and e: "ys = y # ys'" by (auto split: option.splits sum.splits)
  from Cons.IH [OF r] y e show ?case by (auto simp add: nth_Cons split: nat.splits)
qed

lemma interp_columns_values:
  "interp_columns gs ts = Inr cols \<Longrightarrow>
     length cols = length gs
     \<and> (\<forall>j<length gs. \<forall>k<length ts. (gs ! j) (ts ! k) = Some (cols ! j ! k))"
proof (induction gs arbitrary: cols)
  case Nil
  then show ?case by simp
next
  case (Cons g gs)
  from Cons.prems obtain col cols' where c: "interp_array g ts = Inr col"
    and r: "interp_columns gs ts = Inr cols'" and e: "cols = col # cols'"
    by (auto split: sum.splits)
  from Cons.IH [OF r] interp_array_values [OF c] e show ?case
    by (auto simp add: nth_Cons split: nat.splits)
qed

lemma obsRow_tail:
  "\<exists>pre trail detect. obsRow objId cols tvis visits dmagColor k
      = Row (pre @ [Num (cols ! 3 ! k + dmagColor ! k), Num (dmagColor ! k), trail, detect])"
proof -
  obtain a b where "calcMagLosses (cols ! 8 ! k) (FWHMgeom (visits ! k)) (visitExpTime (visits ! k)) = (a, b)"
    by (cases "calcMagLosses (cols ! 8 ! k) (FWHMgeom (visits ! k)) (visitExpTime (visits ! k))")
  then have "obsRow objId cols tvis visits dmagColor k
      = Row (([objId] @ map (\<lambda>col. Num (col ! k)) (take 4 cols) @ [Num (tvis ! k)]
              @ map (\<lambda>col. Num (col ! k)) (drop 4 cols) @ visitCells (visits ! k))
             @ [Num (cols ! 3 ! k + dmagColor ! k), Num (dmagColor ! k), lossCell a, lossCell b])"
    by (simp add: obsRow_def)
  then show ?thesis by blast
qed

subsection \<open>A filter that the colour table lacks\<close>

text \<open>
  C3. Let visit \<open>i\<close> be one of the matched visits and let its filter be absent
  from the table that \<open>calcColors\<close> returns for the spectrum. Then \<open>writeObs\<close>
  raises and has written no line: the file holds what it held before the
  call, or is the new, empty file the call opened. When the indices are in
  range and the interpolants have a value at every matched time, the
  exception is the UserWarning that names a filter of a matched visit that
  the table lacks. No default of zero is ever used: when a call with matches
  returns, each line it wrote carries the offset that the table has for the
  filter of its visit, and the magnitude in that filter is the V magnitude
  plus that offset.
\<close>

theorem writeObs_unknown_filter:
  "(i \<in> set idxObs \<and> i < length simdata
      \<and> calcColors env self sedname None = (Inr tab, self2)
      \<and> tab (filter_col (simdata ! i)) = None
    \<longrightarrow> (\<exists>e s'. writeObs env self objId f simdata idxObs outfileName sedname = (Some e, s')
            \<and> outfile s' = (case outfile self of
                               None \<Rightarrow> Some (outfileName, [])
                             | Some x \<Rightarrow> Some x)
            \<and> ((\<forall>idx\<in>set idxObs. idx < length simdata)
                 \<and> (\<forall>idx\<in>set idxObs. \<forall>g\<in>set (interpList f). g (expMJD (simdata ! idx)) \<noteq> None)
               \<longrightarrow> (\<exists>idx\<in>set idxObs. tab (filter_col (simdata ! idx)) = None
                      \<and> e = UserWarning (''Could not find filter '' @ filter_col (simdata ! idx)
                                          @ '' in calculated colors!'')))))
   \<and> (idxObs \<noteq> []
        \<and> writeObs env self objId f simdata idxObs outfileName sedname = (None, s1)
      \<longrightarrow> (\<exists>tab1 s2 name written rows.
              calcColors env self sedname None = (Inr tab1, s2)
            \<and> outfile s1 = Some (name, written @ rows)
            \<and> length rows = length idxObs
            \<and> (\<forall>k<length idxObs.
                  \<exists>c m pre trail detect.
                    tab1 (filter_col (simdata ! (idxObs ! k))) = Some c
                  \<and> magV f (expMJD (simdata ! (idxObs ! k))) = Some m
                  \<and> rows ! k = Row (pre @ [Num (m + c), Num c, trail, detect]))))"
proof (intro conjI impI)
  assume h: "i \<in> set idxObs \<and> i < length simdata
      \<and> calcColors env self sedname None = (Inr tab, self2)
      \<and> tab (filter_col (simdata ! i)) = None"
  let ?visits = "map (\<lambda>idx. simdata ! idx) idxObs"
  let ?fs = "map filter_col ?visits"
  from h have ne: "idxObs \<noteq> []" by auto
  from h have "filter_col (simdata ! i) \<in> set (np_unique ?fs)"
    by (auto simp add: set_np_unique)
  with h have "\<exists>g'\<in>set (np_unique ?fs). tab g' = None
        \<and> colorTerms tab (np_unique ?fs) ?fs (replicate (length idxObs) 0)
            = Inl (UserWarning (''Could not find filter '' @ g' @ '' in calculated colors!''))"
    by (intro colorTerms_absent) auto
  then obtain g' where g': "g' \<in> set ?fs" "tab g' = None"
    and ct: "colorTerms tab (np_unique ?fs) ?fs (replicate (length idxObs) 0)
            = Inl (UserWarning (''Could not find filter '' @ g' @ '' in calculated colors!''))"
    by (auto simp add: set_np_unique)
  obtain r s' where run: "writeObs env self objId f simdata idxObs outfileName sedname = (r, s')"
    by (cases "writeObs env self objId f simdata idxObs outfileName sedname")
  have raised: "r \<noteq> None"
  proof
    assume "r = None"
    with run writeObs_returns_file [OF ne, of env self objId f simdata outfileName sedname s']
    obtain dmagColor tab' s2' where "calcColors env self sedname None = (Inr tab', s2')"
      "colorTerms tab' (np_unique ?fs) ?fs (replicate (length idxObs) 0) = Inr dmagColor"
      by blast
    with h ct show False by simp
  qed
  then obtain e where e: "r = Some e" by auto
  have written_file: "outfile s' = (case outfile self of None \<Rightarrow> Some (outfileName, []) | Some x \<Rightarrow> Some x)"
    using writeObs_raises_file [OF run [unfolded e]] by simp
  have which: "\<exists>idx\<in>set idxObs. tab (filter_col (simdata ! idx)) = None
                      \<and> e = UserWarning (''Could not find filter '' @ filter_col (simdata ! idx)
                                          @ '' in calculated colors!'')"
    if inr: "\<forall>idx\<in>set idxObs. idx < length simdata"
      and dfd: "\<forall>idx\<in>set idxObs. \<forall>g\<in>set (interpList f). g (expMJD (simdata ! idx)) \<noteq> None"
  proof -
    have "\<exists>cols. interp_columns gs (map expMJD ?visits) = Inr cols"
      if "set gs \<subseteq> set (interpList f)" for gs
      using that
    proof (induction gs)
      case Nil
      show ?case by simp
    next
      case (Cons g gs)
      then have "\<forall>t\<in>set (map expMJD ?visits). g t \<noteq> None" using dfd by auto
      from interp_array_defined [OF this] Cons show ?case by auto
    qed
    then obtain cols where cols: "interp_columns (interpList f) (map expMJD ?visits) = Inr cols"
      by blast
    have "\<not> list_ex (\<lambda>idx. length simdata \<le> idx) idxObs"
      using inr by (auto simp add: list_ex_iff)
    with run e ne cols ct h have "e = UserWarning (''Could not find filter '' @ g' @ '' in calculated colors!'')"
      by (auto simp add: writeObs_def calcColors_opened Let_def
               split: if_splits option.splits prod.splits)
    with g' show ?thesis by auto
  qed
  from run e written_file which
  show "\<exists>e s'. writeObs env self objId f simdata idxObs outfileName sedname = (Some e, s')
            \<and> outfile s' = (case outfile self of
                               None \<Rightarrow> Some (outfileName, [])
                             | Some x \<Rightarrow> Some x)
            \<and> ((\<forall>idx\<in>set idxObs. idx < length simdata)
                 \<and> (\<forall>idx\<in>set idxObs. \<forall>g\<in>set (interpList f). g (expMJD (simdata ! idx)) \<noteq> None)
               \<longrightarrow> (\<exists>idx\<in>set idxObs. tab (filter_col (simdata ! idx)) = None
                      \<and> e = UserWarning (''Could not find filter '' @ filter_col (simdata ! idx)
                                          @ '' in calculated colors!'')))"
    by blast
next
  assume h: "idxObs \<noteq> []
        \<and> writeObs env self objId f simdata idxObs outfileName sedname = (None, s1)"
  let ?visits = "map (\<lambda>idx. simdata ! idx) idxObs"
  let ?fs = "map filter_col ?visits"
  let ?tvis = "map expMJD ?visits"
  from h writeObs_returns_file [of idxObs env self objId f simdata outfileName sedname s1]
  obtain cols tab1 s2 dmagColor where
        cols: "interp_columns (interpList f) ?tvis = Inr cols"
    and cc: "calcColors env self sedname None = (Inr tab1, s2)"
    and ct: "colorTerms tab1 (np_unique ?fs) ?fs (replicate (length idxObs) 0) = Inr dmagColor"
    and out: "outfile s1 =
             Some (case outfile self of
                     None \<Rightarrow> (outfileName,
                              Header headerText
                              # map (obsRow objId cols ?tvis ?visits dmagColor) [0..<length idxObs])
                   | Some (name, written) \<Rightarrow>
                       (name,
                        (if wroteHeader self = Some True then written
                         else written @ [Header headerText])
                        @ map (obsRow objId cols ?tvis ?visits dmagColor) [0..<length idxObs]))"
    by blast
  let ?rows = "map (obsRow objId cols ?tvis ?visits dmagColor) [0..<length idxObs]"
  from out obtain name written where written_file: "outfile s1 = Some (name, written @ ?rows)"
    by (cases "outfile self") (auto split: prod.splits if_splits intro: exI [of _ "[Header headerText]"])
  have each: "\<exists>c m pre trail detect.
                    tab1 (filter_col (simdata ! (idxObs ! k))) = Some c
                  \<and> magV f (expMJD (simdata ! (idxObs ! k))) = Some m
                  \<and> ?rows ! k = Row (pre @ [Num (m + c), Num c, trail, detect])"
    if k: "k < length idxObs" for k
  proof -
    have d: "distinct (np_unique ?fs)" by (simp add: np_unique_def)
    have "?fs ! k \<in> set (np_unique ?fs)" using k by (simp add: set_np_unique)
    with colorTerms_offsets [OF ct _ d, of k] k
    have c: "tab1 (filter_col (simdata ! (idxObs ! k))) = Some (dmagColor ! k)" by simp
    have "3 < length (interpList f)" by (simp add: interpList_def)
    moreover have "k < length ?tvis" using k by simp
    ultimately have "(interpList f ! 3) (?tvis ! k) = Some (cols ! 3 ! k)"
      using interp_columns_values [OF cols] by blast
    then have m: "magV f (expMJD (simdata ! (idxObs ! k))) = Some (cols ! 3 ! k)"
      using k by (simp add: interpList_def)
    from obsRow_tail [of objId cols ?tvis ?visits dmagColor k] obtain pre trail detect
      where "obsRow objId cols ?tvis ?visits dmagColor k
      = Row (pre @ [Num (cols ! 3 ! k + dmagColor ! k), Num (dmagColor ! k), trail, detect])"
      by blast
    with c m k show ?thesis by auto
  qed
  from cc written_file each
  show "\<exists>tab1 s2 name written rows.
              calcColors env self sedname None = (Inr tab1, s2)
            \<and> outfile s1 = Some (name, written @ rows)
            \<and> length rows = length idxObs
            \<and> (\<forall>k<length idxObs.
                  \<exists>c m pre trail detect.
                    tab1 (filter_col (simdata ! (idxObs ! k))) = Some c
                  \<and> magV f (expMJD (simdata ! (idxObs ! k))) = Some m
                  \<and> rows ! k = Row (pre @ [Num (m + c), Num c, trail, detect]))"
    by (intro exI [of _ tab1] exI [of _ s2] exI [of _ name] exI [of _ written] exI [of _ ?rows])
       simp
qed

lemmas eval_defs = writeObs_def calcColors_def loadBandpasses_def sedTable_def env0_def lobs0_def
  path_join_def Let_def visit0_def visitX_def interps0_def interpList_def openOutput_def
  np_unique_def

theorem writeObs_unknown_filter_witness:
  "(\<exists>s'. writeObs env0 lobs0 (Str ''obj1'') interps0 [visitX] [0] ''out.txt'' ''C.dat''
            = (Some (UserWarning ''Could not find filter x in calculated colors!''), s')
          \<and> outfile s' = Some (''out.txt'', []))
   \<and> (\<exists>s1 name written rows pre trail detect.
          writeObs env0 lobs0 (Str ''obj1'') interps0 [visit0] [0] ''out.txt'' ''C.dat''
            = (None, s1)
        \<and> outfile s1 = Some (name, written @ rows) \<and> length rows = 1
        \<and> rows ! 0 = Row (pre @ [Num 14, Num (- 6), trail, detect]))"
proof -
  have "\<exists>tab self2. calcColors env0 lobs0 ''C.dat'' None = (Inr tab, self2)
          \<and> tab ''x'' = None \<and> tab ''r'' = Some (- 6)"
    by (simp add: calcColors_def loadBandpasses_def sedTable_def env0_def lobs0_def
          path_join_def Let_def)
  then obtain tab self2 where cc: "calcColors env0 lobs0 ''C.dat'' None = (Inr tab, self2)"
    and tx: "tab ''x'' = None" and tr: "tab ''r'' = Some (- 6)" by blast
  have fx: "filter_col ([visitX] ! 0) = ''x''" by (simp add: visitX_def)
  have hyp: "0 \<in> set [0::nat] \<and> 0 < length [visitX]
      \<and> calcColors env0 lobs0 ''C.dat'' None = (Inr tab, self2)
      \<and> tab (filter_col ([visitX] ! 0)) = None"
    using cc tx fx by simp
  have dfd: "(\<forall>idx\<in>set [0::nat]. idx < length [visitX])
       \<and> (\<forall>idx\<in>set [0::nat]. \<forall>g\<in>set (interpList interps0). g (expMJD ([visitX] ! idx)) \<noteq> None)"
    by (simp add: interpList_def interps0_def)
  note inst = writeObs_unknown_filter
      [where i = 0 and idxObs = "[0]" and env = env0 and self = lobs0
         and sedname = "''C.dat''" and objId = "Str ''obj1''" and f = interps0
         and outfileName = "''out.txt''"]
  from inst [where simdata = "[visitX]" and tab = tab and ?self2.0 = self2, THEN conjunct1] hyp
  obtain e s' where run: "writeObs env0 lobs0 (Str ''obj1'') interps0 [visitX] [0] ''out.txt'' ''C.dat''
            = (Some e, s')"
    and out: "outfile s' = (case outfile lobs0 of None \<Rightarrow> Some (''out.txt'', []) | Some x \<Rightarrow> Some x)"
    and which: "(\<forall>idx\<in>set [0::nat]. idx < length [visitX])
       \<and> (\<forall>idx\<in>set [0::nat]. \<forall>g\<in>set (interpList interps0). g (expMJD ([visitX] ! idx)) \<noteq> None)
       \<longrightarrow> (\<exists>idx\<in>set [0::nat]. tab (filter_col ([visitX] ! idx)) = None
               \<and> e = UserWarning (''Could not find filter '' @ filter_col ([visitX] ! idx)
                                          @ '' in calculated colors!''))"
    by blast
  from which dfd fx have e: "e = UserWarning ''Could not find filter x in calculated colors!''"
    by simp
  have part1: "\<exists>s'. writeObs env0 lobs0 (Str ''obj1'') interps0 [visitX] [0] ''out.txt'' ''C.dat''
            = (Some (UserWarning ''Could not find filter x in calculated colors!''), s')
          \<and> outfile s' = Some (''out.txt'', [])"
    using run out e by (simp add: lobs0_def)
  have "\<exists>s1. writeObs env0 lobs0 (Str ''obj1'') interps0 [visit0] [0] ''out.txt'' ''C.dat''
            = (None, s1)"
    by (simp add: eval_defs)
  then obtain s1 where run1: "writeObs env0 lobs0 (Str ''obj1'') interps0 [visit0] [0] ''out.txt'' ''C.dat''
            = (None, s1)" by blast
  from inst [where simdata = "[visit0]" and ?s1.0 = s1, THEN conjunct2] run1
  obtain tab1 s2 name written rows where cc1: "calcColors env0 lobs0 ''C.dat'' None = (Inr tab1, s2)"
    and out1: "outfile s1 = Some (name, written @ rows)" and len: "length rows = length [0::nat]"
    and each: "\<forall>k<length [0::nat]. \<exists>c m pre trail detect.
                    tab1 (filter_col ([visit0] ! ([0] ! k))) = Some c
                  \<and> magV interps0 (expMJD ([visit0] ! ([0] ! k))) = Some m
                  \<and> rows ! k = Row (pre @ [Num (m + c), Num c, trail, detect])"
    by auto
  from cc cc1 have t1: "tab1 = tab" by simp
  from each obtain c m pre trail detect where
       "tab1 (filter_col ([visit0] ! ([0] ! 0))) = Some c"
       "magV interps0 (expMJD ([visit0] ! ([0] ! 0))) = Some m"
       "rows ! 0 = Row (pre @ [Num (m + c), Num c, trail, detect])"
    by auto
  with t1 tr have "rows ! 0 = Row (pre @ [Num 14, Num (- 6), trail, detect])"
    by (simp add: visit0_def interps0_def)
  with run1 out1 len
  have part2: "\<exists>s1 name written rows pre trail detect.
          writeObs env0 lobs0 (Str ''obj1'') interps0 [visit0] [0] ''out.txt'' ''C.dat''
            = (None, s1)
        \<and> outfile s1 = Some (name, written @ rows) \<and> length rows = 1
        \<and> rows ! 0 = Row (pre @ [Num 14, Num (- 6), trail, detect])"
    by (intro exI [of _ s1] exI [of _ name] exI [of _ written] exI [of _ rows]
              exI [of _ pre] exI [of _ trail] exI [of _ detect]) simp
  from part1 part2 show ?thesis by (rule conjI)
qed

subsection \<open>The header\<close>

lemma obsRow_not_header: "\<not> isHeader (obsRow objId cols tvis visits dmagColor k)"
  by (simp add: obsRow_def split: prod.splits)

lemma writeObs_first:
  assumes "outfile self = None" and "idxObs \<noteq> []"
    and "writeObs env self objId f simdata idxObs outfileName sedname = (None, s')"
  shows "\<exists>rows. outfile s' = Some (outfileName, Header headerText # rows)
           \<and> wroteHeader s' = Some True \<and> length rows = length idxObs
           \<and> (\<forall>l\<in>set rows. \<not> isHeader l)"
  using writeObs_returns_file [OF assms(2,3)] assms(1)
  by (auto simp add: obsRow_not_header)

lemma writeObs_later:
  assumes "outfile self = Some (name, Header headerText # rows)"
    and "wroteHeader self = Some True"
    and "writeObs env self objId f simdata idxObs outfileName sedname = (r, s')"
  shows "\<exists>rows'. outfile s' = Some (name, Header headerText # rows @ rows')
           \<and> wroteHeader s' = Some True
           \<and> (\<forall>l\<in>set rows'. \<not> isHeader l)
           \<and> (r = None \<longrightarrow> length rows' = length idxObs)"
proof (cases "idxObs = []")
  case True
  with assms show ?thesis by (simp add: writeObs_empty)
next
  case False
  show ?thesis
  proof (cases r)
    case None
    from writeObs_returns_file [OF False assms(3) [unfolded None]] assms(1,2) None
    show ?thesis by (auto simp add: obsRow_not_header)
  next
    case (Some e)
    from writeObs_raises_file [OF assms(3) [unfolded Some]] assms(1,2) Some
    show ?thesis by simp
  qed
qed

lemma writeObsCalls_later:
  assumes "outfile self = Some (name, Header headerText # rows)"
    and "wroteHeader self = Some True"
    and "writeObsCalls env self cs = (r, s')"
  shows "\<exists>rows'. outfile s' = Some (name, Header headerText # rows @ rows')
           \<and> wroteHeader s' = Some True
           \<and> (\<forall>l\<in>set rows'. \<not> isHeader l)
           \<and> (r = None \<longrightarrow> length rows' = sum_list (map (\<lambda>c. length (call_idxObs c)) cs))"
  using assms
proof (induction cs arbitrary: self rows)
  case Nil
  then show ?case by simp
next
  case (Cons c cs)
  obtain r1 s1 where step: "writeObs env self (call_objId c) (call_interpfuncs c) (call_simdata c)
             (call_idxObs c) (call_outfileName c) (call_sedname c) = (r1, s1)"
    by (cases "writeObs env self (call_objId c) (call_interpfuncs c) (call_simdata c)
             (call_idxObs c) (call_outfileName c) (call_sedname c)")
  from writeObs_later [OF Cons.prems(1,2) step] obtain rows1
    where o1: "outfile s1 = Some (name, Header headerText # rows @ rows1)"
      and w1: "wroteHeader s1 = Some True"
      and h1: "\<forall>l\<in>set rows1. \<not> isHeader l"
      and n1: "r1 = None \<longrightarrow> length rows1 = length (call_idxObs c)" by blast
  show ?case
  proof (cases r1)
    case (Some e)
    with Cons.prems(3) step have "r = Some e" "s' = s1" by simp_all
    with o1 w1 h1 show ?thesis by auto
  next
    case None
    with Cons.prems(3) step have rest: "writeObsCalls env s1 cs = (r, s')" by simp
    from Cons.IH [OF o1 w1 rest] obtain rows2
      where "outfile s' = Some (name, Header headerText # (rows @ rows1) @ rows2)"
        and "wroteHeader s' = Some True"
        and "\<forall>l\<in>set rows2. \<not> isHeader l"
        and "r = None \<longrightarrow> length rows2 = sum_list (map (\<lambda>c. length (call_idxObs c)) cs)"
      by blast
    with h1 n1 None show ?thesis
      by (intro exI [of _ "rows1 @ rows2"]) auto
  qed
qed

lemma writeObsCalls_empty_prefix:
  "\<forall>p\<in>set pre. call_idxObs p = [] \<Longrightarrow>
     writeObsCalls env self (pre @ rest) = writeObsCalls env self rest"
  by (induction pre) (simp_all add: writeObs_empty)

lemma no_header_filter: "\<forall>l\<in>set rows. \<not> isHeader l \<Longrightarrow> filter isHeader rows = []"
  by (induction rows) auto

text \<open>
  C4. A call of \<open>writeObs\<close> with no matches returns the instance as it was: no
  line, no header, no file. So a run of calls none of which has a match
  leaves the instance as it was, and a fresh instance still has no file.
  Starting without a file, let the first call with matches come after calls
  without any, and let it return. Then that call opens the file and writes the
  header and one line for each of its matches; whatever calls follow until the
  run ends, the file begins with these lines, it has exactly one header line,
  and when every call returned it has one line for each match of the run.
\<close>

theorem writeObs_header_once:
  "writeObs env self objId f simdata [] outfileName sedname = (None, self)
   \<and> ((\<forall>c\<in>set calls. call_idxObs c = []) \<longrightarrow> writeObsCalls env self calls = (None, self))
   \<and> (outfile self = None
        \<and> (\<forall>p\<in>set pre. call_idxObs p = []) \<and> call_idxObs c \<noteq> []
        \<and> writeObs env self (call_objId c) (call_interpfuncs c) (call_simdata c)
              (call_idxObs c) (call_outfileName c) (call_sedname c) = (None, s1)
        \<and> writeObsCalls env self (pre @ c # post) = (r, s')
      \<longrightarrow> (\<exists>rows1 rows.
              outfile s1 = Some (call_outfileName c, Header headerText # rows1)
            \<and> length rows1 = length (call_idxObs c)
            \<and> outfile s' = Some (call_outfileName c, Header headerText # rows1 @ rows)
            \<and> length (filter isHeader (Header headerText # rows1 @ rows)) = 1
            \<and> (r = None \<longrightarrow>
                 length (rows1 @ rows)
                   = sum_list (map (\<lambda>c. length (call_idxObs c)) (pre @ c # post)))))"
proof (intro conjI impI)
  show "writeObs env self objId f simdata [] outfileName sedname = (None, self)"
    by (rule writeObs_empty)
next
  assume "\<forall>c\<in>set calls. call_idxObs c = []"
  then have "writeObsCalls env self (calls @ []) = writeObsCalls env self []"
    by (rule writeObsCalls_empty_prefix)
  then show "writeObsCalls env self calls = (None, self)" by simp
next
  assume h: "outfile self = None
        \<and> (\<forall>p\<in>set pre. call_idxObs p = []) \<and> call_idxObs c \<noteq> []
        \<and> writeObs env self (call_objId c) (call_interpfuncs c) (call_simdata c)
              (call_idxObs c) (call_outfileName c) (call_sedname c) = (None, s1)
        \<and> writeObsCalls env self (pre @ c # post) = (r, s')"
  then have fresh: "outfile self = None" and pre: "\<forall>p\<in>set pre. call_idxObs p = []"
    and ne: "call_idxObs c \<noteq> []"
    and step: "writeObs env self (call_objId c) (call_interpfuncs c) (call_simdata c)
              (call_idxObs c) (call_outfileName c) (call_sedname c) = (None, s1)"
    and run: "writeObsCalls env self (pre @ c # post) = (r, s')" by simp_all
  from writeObs_first [OF fresh ne step] obtain rows1
    where o1: "outfile s1 = Some (call_outfileName c, Header headerText # rows1)"
      and w1: "wroteHeader s1 = Some True" and n1: "length rows1 = length (call_idxObs c)"
      and h1: "\<forall>l\<in>set rows1. \<not> isHeader l" by blast
  from run writeObsCalls_empty_prefix [OF pre, of env self "c # post"] step
  have rest: "writeObsCalls env s1 post = (r, s')" by simp
  from writeObsCalls_later [OF o1 w1 rest] obtain rows
    where o: "outfile s' = Some (call_outfileName c, Header headerText # rows1 @ rows)"
      and hs: "\<forall>l\<in>set rows. \<not> isHeader l"
      and n: "r = None \<longrightarrow> length rows = sum_list (map (\<lambda>c. length (call_idxObs c)) post)"
    by blast
  have once: "length (filter isHeader (Header headerText # rows1 @ rows)) = 1"
    using h1 hs by (simp add: no_header_filter)
  have zero: "sum_list (map (\<lambda>c. length (call_idxObs c)) pre) = 0"
    using pre by (induction pre) auto
  have total: "r = None \<longrightarrow>
                 length (rows1 @ rows)
                   = sum_list (map (\<lambda>c. length (call_idxObs c)) (pre @ c # post))"
    using n n1 zero by simp
  from o1 n1 o once total
  show "\<exists>rows1 rows.
              outfile s1 = Some (call_outfileName c, Header headerText # rows1)
            \<and> length rows1 = length (call_idxObs c)
            \<and> outfile s' = Some (call_outfileName c, Header headerText # rows1 @ rows)
            \<and> length (filter isHeader (Header headerText # rows1 @ rows)) = 1
            \<and> (r = None \<longrightarrow>
                 length (rows1 @ rows)
                   = sum_list (map (\<lambda>c. length (call_idxObs c)) (pre @ c # post)))"
    by blast
qed

theorem writeObs_header_once_witness:
  "writeObsCalls env0 lobs0 [call0, call0] = (None, lobs0) \<and> outfile lobs0 = None
   \<and> (\<exists>s' rows. writeObsCalls env0 lobs0 [call0, call1, call0, call1] = (None, s')
          \<and> outfile s' = Some (''out.txt'', Header headerText # rows)
          \<and> length rows = 2
          \<and> length (filter isHeader (Header headerText # rows)) = 1)"
proof -
  note inst = writeObs_header_once [where env = env0 and self = lobs0]
  have e0: "\<forall>c\<in>set [call0, call0]. call_idxObs c = []" by (simp add: call0_def)
  from inst [where calls = "[call0, call0]", THEN conjunct2, THEN conjunct1] e0
  have part1: "writeObsCalls env0 lobs0 [call0, call0] = (None, lobs0)" by blast
  have fresh: "outfile lobs0 = None" by (simp add: lobs0_def)
  have "\<exists>s1. writeObs env0 lobs0 (call_objId call1) (call_interpfuncs call1) (call_simdata call1)
              (call_idxObs call1) (call_outfileName call1) (call_sedname call1) = (None, s1)"
    by (simp add: eval_defs call1_def)
  then obtain s1 where step: "writeObs env0 lobs0 (call_objId call1) (call_interpfuncs call1)
              (call_simdata call1) (call_idxObs call1) (call_outfileName call1)
              (call_sedname call1) = (None, s1)" by blast
  obtain r s' where run: "writeObsCalls env0 lobs0 ([call0] @ call1 # [call0, call1]) = (r, s')"
    by (cases "writeObsCalls env0 lobs0 ([call0] @ call1 # [call0, call1])")
  have hyp: "outfile lobs0 = None
        \<and> (\<forall>p\<in>set [call0]. call_idxObs p = []) \<and> call_idxObs call1 \<noteq> []
        \<and> writeObs env0 lobs0 (call_objId call1) (call_interpfuncs call1) (call_simdata call1)
              (call_idxObs call1) (call_outfileName call1) (call_sedname call1) = (None, s1)
        \<and> writeObsCalls env0 lobs0 ([call0] @ call1 # [call0, call1]) = (r, s')"
    using fresh step run by (simp add: call0_def call1_def)
  from inst [where pre = "[call0]" and c = call1 and post = "[call0, call1]"
               and ?s1.0 = s1 and r = r and s' = s', THEN conjunct2, THEN conjunct2] hyp
  obtain rows1 rows
    where o: "outfile s' = Some (call_outfileName call1, Header headerText # rows1 @ rows)"
      and once: "length (filter isHeader (Header headerText # rows1 @ rows)) = 1"
      and total: "r = None \<longrightarrow>
                 length (rows1 @ rows)
                   = sum_list (map (\<lambda>c. length (call_idxObs c)) ([call0] @ call1 # [call0, call1]))"
    by blast
  have "\<exists>s1. writeObsCalls env0 lobs0 [call0, call1, call0, call1] = (None, s1)"
    by (simp add: eval_defs call0_def call1_def)
  with run have r: "r = None" by auto
  with total have "length (rows1 @ rows) = 2" by (simp add: call0_def call1_def)
  with run r o once have "\<exists>s' rows. writeObsCalls env0 lobs0 [call0, call1, call0, call1] = (None, s')
          \<and> outfile s' = Some (''out.txt'', Header headerText # rows)
          \<and> length rows = 2
          \<and> length (filter isHeader (Header headerText # rows)) = 1"
    by (intro exI [of _ s'] exI [of _ "rows1 @ rows"]) (simp add: call1_def)
  with part1 fresh show ?thesis by simp
qed

end
